(* ===== verification/CSW_Prelude.thy ===== *)
theory CSW_Prelude
  imports Main "HOL-Library.AList"
begin

text \<open>
  Shared infrastructure of the development: the result type of operations that can
  raise, the combinator for loops that thread a state and may raise, the theorem
  collections the component theories add to, and the list and association-list facts
  several components use.  Nothing here models a line of the program.
\<close>

section \<open>Theorem collections\<close>

named_theorems csw_eval \<open>equations that run the modelled operations on a concrete input\<close>
named_theorems csw_spec \<open>unfolding equations of the reference definitions and predicates\<close>

section \<open>Results of operations that can raise\<close>

text \<open>
  A JavaScript function either returns a value or raises.  A raise is \<open>Inl e\<close>, a
  normal return \<open>Inr x\<close>; \<open>res_bind\<close> is sequencing: what follows a raising statement
  is not run.
\<close>

fun res_bind :: "'e + 'a \<Rightarrow> ('a \<Rightarrow> 'e + 'b) \<Rightarrow> 'e + 'b" where
  "res_bind (Inl e) f = Inl e"
| "res_bind (Inr x) f = f x"

lemma res_bind_return [simp]: "res_bind r Inr = r"
  by (cases r) simp_all

lemma res_bind_assoc: "res_bind (res_bind r f) g = res_bind r (\<lambda>x. res_bind (f x) g)"
  by (cases r) simp_all

lemma res_bind_eq_Inr_iff:
  "res_bind r f = Inr y \<longleftrightarrow> (\<exists>x. r = Inr x \<and> f x = Inr y)"
  by (cases r) simp_all

lemma res_bind_eq_Inl_iff:
  "res_bind r f = Inl e \<longleftrightarrow> r = Inl e \<or> (\<exists>x. r = Inr x \<and> f x = Inl e)"
  by (cases r) simp_all

text \<open>
  What follows a statement is evaluated only when the statement has returned: with
  this rule a recursive call under \<open>res_bind\<close> keeps its context in termination
  proofs and induction rules.
\<close>

lemma res_bind_cong [fundef_cong]:
  "r = r' \<Longrightarrow> (\<And>x. r' = Inr x \<Longrightarrow> f x = f' x) \<Longrightarrow> res_bind r f = res_bind r' f'"
  by (cases r') simp_all

section \<open>Running an operation over a list\<close>

text \<open>
  \<open>res_mapM f xs\<close> applies \<open>f\<close> to the elements in order and collects the results; the
  first raise ends it.
\<close>

fun res_mapM :: "('a \<Rightarrow> 'e + 'b) \<Rightarrow> 'a list \<Rightarrow> 'e + 'b list" where
  "res_mapM f [] = Inr []"
| "res_mapM f (x # xs) =
     res_bind (f x) (\<lambda>y. res_bind (res_mapM f xs) (\<lambda>ys. Inr (y # ys)))"

lemma res_mapM_cong [fundef_cong]:
  "xs = ys \<Longrightarrow> (\<And>x. x \<in> set ys \<Longrightarrow> f x = g x) \<Longrightarrow> res_mapM f xs = res_mapM g ys"
  by (induction ys arbitrary: xs) auto

lemma res_mapM_total:
  assumes "\<And>x. x \<in> set xs \<Longrightarrow> f x = Inr (g x)"
  shows "res_mapM f xs = Inr (map g xs)"
  using assms by (induction xs) simp_all

lemma res_mapM_raises:
  assumes "\<And>x. x \<in> set xs \<Longrightarrow> f x = Inl e" and "xs \<noteq> []"
  shows "res_mapM f xs = Inl e"
  using assms by (cases xs) simp_all

lemma res_mapM_Inr_iff:
  "res_mapM f xs = Inr ys \<longleftrightarrow> list_all2 (\<lambda>x y. f x = Inr y) xs ys"
  by (induction xs arbitrary: ys) (auto simp: res_bind_eq_Inr_iff list_all2_Cons1)

lemma res_mapM_length:
  "res_mapM f xs = Inr ys \<Longrightarrow> length ys = length xs"
  by (induction xs arbitrary: ys) (auto simp: res_bind_eq_Inr_iff)

lemma res_mapM_list_all:
  assumes "res_mapM f xs = Inr ys" and "\<And>x y. x \<in> set xs \<Longrightarrow> f x = Inr y \<Longrightarrow> P y"
  shows "list_all P ys"
proof -
  from assms(1) have "list_all2 (\<lambda>x y. f x = Inr y) xs ys"
    by (simp add: res_mapM_Inr_iff)
  then show ?thesis
    using assms(2) by (induction rule: list_all2_induct) auto
qed

section \<open>Loops over a list that thread a state\<close>

text \<open>
  \<open>for_each body xs s\<close> runs \<open>body x\<close> for every \<open>x\<close> of \<open>xs\<close> in order, handing the
  state on, and stops at the first raise: the shape of a \<open>for (k in obj) { ... }\<close> loop
  over the snapshot of the keys taken when the loop starts.
\<close>

fun for_each :: "('a \<Rightarrow> 's \<Rightarrow> 'e + 's) \<Rightarrow> 'a list \<Rightarrow> 's \<Rightarrow> 'e + 's" where
  "for_each body [] s = Inr s"
| "for_each body (x # xs) s = res_bind (body x s) (for_each body xs)"

lemma for_each_append:
  "for_each body (xs @ ys) s = res_bind (for_each body xs s) (for_each body ys)"
proof (induction xs arbitrary: s)
  case Nil
  show ?case by simp
next
  case (Cons x xs)
  then show ?case by (cases "body x s") simp_all
qed

text \<open>A loop whose body never raises is a \<open>fold\<close>.\<close>

lemma for_each_total:
  assumes "\<And>x s. x \<in> set xs \<Longrightarrow> body x s = Inr (g x s)"
  shows "for_each body xs s = Inr (fold g xs s)"
  using assms by (induction xs arbitrary: s) simp_all

text \<open>What every iteration preserves holds when the loop returns.\<close>

lemma for_each_invariant:
  assumes "for_each body xs s = Inr s'" and "P s"
    and "\<And>x s s'. x \<in> set xs \<Longrightarrow> P s \<Longrightarrow> body x s = Inr s' \<Longrightarrow> P s'"
  shows "P s'"
  using assms by (induction xs arbitrary: s) (auto simp: res_bind_eq_Inr_iff)

text \<open>A body that leaves the state alone outside one key acts at that key only.\<close>

lemma for_each_skip:
  assumes "\<And>x s. x \<in> set xs \<Longrightarrow> body x s = Inr s"
  shows "for_each body xs s = Inr s"
  using assms by (induction xs arbitrary: s) simp_all

lemma for_each_single:
  assumes "distinct xs" and "k \<in> set xs"
    and "\<And>x s. x \<noteq> k \<Longrightarrow> body x s = Inr s"
  shows "for_each body xs s = body k s"
proof -
  from assms(2) obtain ys zs where xs: "xs = ys @ k # zs"
    by (auto simp: in_set_conv_decomp)
  with assms(1) have "k \<notin> set ys" and "k \<notin> set zs"
    by auto
  then have "for_each body ys s = Inr s" and "for_each body zs = Inr"
    by (auto intro!: for_each_skip assms(3))
  then show ?thesis
    by (simp add: xs for_each_append)
qed

section \<open>Accumulating folds\<close>

text \<open>
  A fold that pushes the selected elements onto the end of an accumulator is the
  accumulator followed by a filter.
\<close>

lemma fold_push_filter:
  "fold (\<lambda>x acc. if P x then acc @ [f x] else acc) xs acc = acc @ map f (filter P xs)"
  by (induction xs arbitrary: acc) simp_all

lemma fold_push_pair_filter:
  "fold (\<lambda>x (ks, vs). if P x then (ks @ [f x], vs @ [g x]) else (ks, vs)) xs (ks, vs)
     = (ks @ map f (filter P xs), vs @ map g (filter P xs))"
  by (induction xs arbitrary: ks vs) simp_all

section \<open>Counting loops and searches\<close>

lemma drop_index_Cons: "i < length xs \<Longrightarrow> drop i xs = xs ! i # drop (Suc i) xs"
  by (simp add: Cons_nth_drop_Suc)

lemma find_append_if:
  "List.find P (xs @ ys) = (case List.find P xs of None \<Rightarrow> List.find P ys | Some x \<Rightarrow> Some x)"
  by (induction xs) simp_all

lemma find_filter_hd:
  "List.find P xs = (case filter P xs of [] \<Rightarrow> None | x # _ \<Rightarrow> Some x)"
  by (induction xs) simp_all

section \<open>Association lists\<close>

lemma map_of_update_same [simp]: "map_of (AList.update k v al) k = Some v"
  by (simp add: update_conv')

lemma map_of_update_other [simp]: "k' \<noteq> k \<Longrightarrow> map_of (AList.update k v al) k' = map_of al k'"
  by (simp add: update_conv')

lemma keys_update_present:
  "k \<in> fst ` set al \<Longrightarrow> map fst (AList.update k v al) = map fst al"
  by (simp add: update_keys)

lemma length_update_present:
  "k \<in> fst ` set al \<Longrightarrow> length (AList.update k v al) = length al"
  using keys_update_present [of k al v] by (metis length_map)

lemma map_of_distinct_entry:
  "distinct (map fst al) \<Longrightarrow> (k, v) \<in> set al \<Longrightarrow> map_of al k = Some v"
  by simp

text \<open>
  Reading every key of a well-formed association list back through \<open>map_of\<close> gives
  the list itself.
\<close>

lemma map_of_readback:
  assumes "distinct (map fst al)"
  shows "map (\<lambda>k. (k, the (map_of al k))) (map fst al) = al"
proof -
  have "\<And>p. p \<in> set al \<Longrightarrow> (fst p, the (map_of al (fst p))) = p"
    using assms by (metis map_of_distinct_entry option.sel prod.collapse)
  then show ?thesis
    by (simp add: map_idI comp_def)
qed

section \<open>Writing a list of entries into an association list\<close>

text \<open>
  Writing the entries of \<open>ps\<close> one after the other with \<open>AList.update\<close>: an entry whose
  key is there is overwritten in place, a new key goes to the end.  What the result
  maps:
\<close>

lemma map_of_fold_update:
  "map_of (fold (\<lambda>(k, v). AList.update k v) ps al) = map_of al ++ map_of (rev ps)"
  by (induction ps arbitrary: al)
    (auto simp: update_conv' fun_eq_iff map_add_def split: option.splits)

lemma map_of_rev_distinct: "distinct (map fst ps) \<Longrightarrow> map_of (rev ps) = map_of ps"
  by (rule ext) (metis distinct_rev map_of_inject_set rev_map set_rev)

text \<open>A filter that rejects a key whatever its value does not see a write at that key.\<close>

lemma filter_update_rejected:
  "(\<And>v. \<not> P (k, v)) \<Longrightarrow> filter P (AList.update k v al) = filter P al"
  by (induction al) auto

end
