(* ===== verification/JS_Value.thy ===== *)
theory JS_Value
  imports CSW_Prelude
begin

text \<open>
  The JavaScript values and objects the filter window handles, and the primitive
  operations of the language its code applies to them: the truthiness test of
  \<open>&&\<close> and \<open>if\<close>, the property read \<open>.length\<close> compared with \<open>0\<close>, \<open>instanceof Array\<close>,
  strict equality with a string, and reading, writing and enumerating the properties
  of a plain object.  The last sections give the two types a form value can have, a
  string or an array of strings, with an executable checker, and the objects all of
  whose values are typed.
\<close>

section \<open>Values\<close>

text \<open>
  A form value is a string, or an array when several fields share a name; the guards
  of the code also meet \<open>undefined\<close> and \<open>null\<close>.  Booleans and (integral) numbers are
  kept so that the guards are defined on every primitive.  Objects other than arrays
  do not occur as form values and are not modelled.
\<close>

datatype jsval =
    JUndefined
  | JNull
  | JBool bool
  | JNum int
  | JStr string
  | JArr "jsval list"

datatype js_error = TypeError

type_synonym 'a result = "js_error + 'a"

text \<open>ToBoolean: what \<open>if (v)\<close> and \<open>v && ...\<close> test.  An array is truthy even when empty.\<close>

fun truthy :: "jsval \<Rightarrow> bool" where
  "truthy JUndefined = False"
| "truthy JNull = False"
| "truthy (JBool b) = b"
| "truthy (JNum n) = (n \<noteq> 0)"
| "truthy (JStr s) = (s \<noteq> [])"
| "truthy (JArr xs) = True"

text \<open>
  \<open>v.length > 0\<close>.  Reading a property of \<open>undefined\<close> or \<open>null\<close> raises a TypeError; a
  boolean or a number has no \<open>length\<close>, the read gives \<open>undefined\<close> and the comparison
  with \<open>0\<close> is false.
\<close>

fun length_gt_zero :: "jsval \<Rightarrow> bool result" where
  "length_gt_zero JUndefined = Inl TypeError"
| "length_gt_zero JNull = Inl TypeError"
| "length_gt_zero (JBool b) = Inr False"
| "length_gt_zero (JNum n) = Inr False"
| "length_gt_zero (JStr s) = Inr (0 < length s)"
| "length_gt_zero (JArr xs) = Inr (0 < length xs)"

fun instanceof_Array :: "jsval \<Rightarrow> bool" where
  "instanceof_Array (JArr xs) = True"
| "instanceof_Array _ = False"

text \<open>\<open>s === v\<close> for a string \<open>s\<close>: no conversion, so only the same string is equal.\<close>

definition strict_eq_str :: "string \<Rightarrow> jsval \<Rightarrow> bool" where
  "strict_eq_str s v \<longleftrightarrow> v = JStr s"

text \<open>
  \<open>undefined\<close> and \<open>null\<close> have no properties: reading \<open>v.length\<close> of one of them raises
  a TypeError.
\<close>

fun nullish :: "jsval \<Rightarrow> bool" where
  "nullish JUndefined = True"
| "nullish JNull = True"
| "nullish _ = False"

text \<open>
  The elements a counting loop \<open>for (j = 0; j < a.length; j++) ... a[j]\<close> visits: the
  elements of an array, the characters of a string (a string has a length and is
  indexed by character), none for a boolean or a number (\<open>length\<close> is \<open>undefined\<close> and
  the comparison fails at once).  On \<open>undefined\<close> and \<open>null\<close> the loop does not start: the
  read of \<open>length\<close> raises, which the loop tests with \<open>nullish\<close> before it asks for the
  elements.
\<close>

fun array_elems :: "jsval \<Rightarrow> jsval list" where
  "array_elems (JArr xs) = xs"
| "array_elems (JStr s) = map (\<lambda>c. JStr [c]) s"
| "array_elems _ = []"

text \<open>
  The reference reading of the guard: a value is \<^emph>\<open>present\<close> when it is a non-empty
  string or a non-empty array.
\<close>

fun present :: "jsval \<Rightarrow> bool" where
  "present (JStr s) = (s \<noteq> [])"
| "present (JArr xs) = (xs \<noteq> [])"
| "present _ = False"

section \<open>Objects\<close>

text \<open>
  A plain object is the list of its own properties in the order \<open>for (k in obj)\<close>
  enumerates them.  \<open>obj[k]\<close> of a missing property is \<open>undefined\<close>; \<open>obj[k] = v\<close> keeps
  the position of an existing property and appends a new one.
\<close>

type_synonym jsobj = "(string \<times> jsval) list"

definition own_keys :: "jsobj \<Rightarrow> string list" where
  "own_keys obj = map fst obj"

definition obj_get :: "jsobj \<Rightarrow> string \<Rightarrow> jsval" where
  "obj_get obj k = (case map_of obj k of None \<Rightarrow> JUndefined | Some v \<Rightarrow> v)"

definition obj_set :: "jsobj \<Rightarrow> string \<Rightarrow> jsval \<Rightarrow> jsobj" where
  "obj_set obj k v = AList.update k v obj"

text \<open>An object has no property twice.\<close>

definition wf_obj :: "jsobj \<Rightarrow> bool" where
  "wf_obj obj \<longleftrightarrow> distinct (own_keys obj)"

section \<open>The type of a form value\<close>

text \<open>
  \<open>getValues\<close> of a form gives every field as a string, or as an array of strings
  when several controls share the name of the field: a form value is a scalar or a
  sequence.  \<open>type_of\<close> is the executable check; a value of any other shape has no
  type.  An object of form values is well-typed when every field has one.
\<close>

datatype form_type = TScalar | TSequence

fun is_string :: "jsval \<Rightarrow> bool" where
  "is_string (JStr s) = True"
| "is_string _ = False"

fun type_of :: "jsval \<Rightarrow> form_type option" where
  "type_of (JStr s) = Some TScalar"
| "type_of (JArr xs) = (if list_all is_string xs then Some TSequence else None)"
| "type_of _ = None"

definition form_typed :: "jsobj \<Rightarrow> bool" where
  "form_typed obj \<longleftrightarrow> list_all (\<lambda>p. type_of (snd p) \<noteq> None) obj"

lemmas obj_defs = own_keys_def obj_get_def obj_set_def wf_obj_def

declare own_keys_def [csw_eval] obj_get_def [csw_eval] obj_set_def [csw_eval]
  wf_obj_def [csw_spec] form_typed_def [csw_spec]

section \<open>Facts about the guards\<close>

lemma truthy_length_defined: "truthy v \<Longrightarrow> \<exists>b. length_gt_zero v = Inr b"
  by (cases v) auto

text \<open>The truthiness test in front of the \<open>length\<close> read makes the read safe.\<close>

lemma guarded_length [simp]:
  "(if truthy v then length_gt_zero v else Inr False) = Inr (present v)"
  by (cases v) simp_all

lemma present_truthy: "present v \<Longrightarrow> truthy v"
  by (cases v) simp_all

lemma instanceof_Array_iff: "instanceof_Array v \<longleftrightarrow> (\<exists>xs. v = JArr xs)"
  by (cases v) simp_all

lemma instanceof_not_nullish [simp]: "instanceof_Array v \<Longrightarrow> \<not> nullish v"
  by (cases v) simp_all

lemma length_gt_zero_nullish: "length_gt_zero v = Inl TypeError \<longleftrightarrow> nullish v"
  by (cases v) simp_all

lemma array_elems_instanceof: "instanceof_Array v \<Longrightarrow> JArr (array_elems v) = v"
  by (cases v) simp_all

lemma strict_eq_str_JStr [simp]: "strict_eq_str s (JStr t) \<longleftrightarrow> s = t"
  by (auto simp: strict_eq_str_def)

lemma strict_eq_str_other [simp]:
  "\<not> strict_eq_str s JUndefined" "\<not> strict_eq_str s JNull" "\<not> strict_eq_str s (JBool b)"
  "\<not> strict_eq_str s (JNum n)" "\<not> strict_eq_str s (JArr xs)"
  by (simp_all add: strict_eq_str_def)

section \<open>Facts about objects\<close>

lemma obj_get_set_same [simp]: "obj_get (obj_set obj k v) k = v"
  by (simp add: obj_get_def obj_set_def)

lemma obj_get_set_other [simp]: "k' \<noteq> k \<Longrightarrow> obj_get (obj_set obj k v) k' = obj_get obj k'"
  by (simp add: obj_get_def obj_set_def)

lemma obj_get_Nil [simp]: "obj_get [] k = JUndefined"
  by (simp add: obj_get_def)

lemma obj_get_Cons [simp]:
  "obj_get ((k', v) # obj) k = (if k = k' then v else obj_get obj k)"
  by (simp add: obj_get_def)

lemma own_keys_Nil [simp]: "own_keys [] = []"
  by (simp add: own_keys_def)

lemma own_keys_Cons [simp]: "own_keys (p # obj) = fst p # own_keys obj"
  by (simp add: own_keys_def)

lemma obj_get_missing: "k \<notin> set (own_keys obj) \<Longrightarrow> obj_get obj k = JUndefined"
  by (induction obj) auto

lemma obj_get_entry: "wf_obj obj \<Longrightarrow> (k, v) \<in> set obj \<Longrightarrow> obj_get obj k = v"
  by (simp add: wf_obj_def own_keys_def obj_get_def)

text \<open>Writing an existing property changes neither the keys nor their order.\<close>

lemma own_keys_set_present:
  "k \<in> set (own_keys obj) \<Longrightarrow> own_keys (obj_set obj k v) = own_keys obj"
  by (simp add: own_keys_def obj_set_def keys_update_present)

lemma own_keys_set_absent:
  "k \<notin> set (own_keys obj) \<Longrightarrow> own_keys (obj_set obj k v) = own_keys obj @ [k]"
  by (simp add: own_keys_def obj_set_def update_keys)

lemma wf_obj_set: "wf_obj obj \<Longrightarrow> wf_obj (obj_set obj k v)"
  by (simp add: wf_obj_def own_keys_def obj_set_def distinct_update)

lemma obj_set_same_value: "k \<in> set (own_keys obj) \<Longrightarrow> obj_set obj k (obj_get obj k) = obj"
  by (induction obj) (auto simp: obj_set_def)

text \<open>A well-formed object is the list of its keys, each with the value read at it.\<close>

lemma obj_readback: "wf_obj obj \<Longrightarrow> map (\<lambda>k. (k, obj_get obj k)) (own_keys obj) = obj"
proof (induction obj)
  case Nil
  show ?case by simp
next
  case (Cons p obj)
  from Cons.prems have wf: "wf_obj obj" and fresh: "fst p \<notin> set (own_keys obj)"
    by (simp_all add: wf_obj_def)
  from fresh have "map (\<lambda>k. (k, obj_get (p # obj) k)) (own_keys obj)
      = map (\<lambda>k. (k, obj_get obj k)) (own_keys obj)"
    by (cases p) auto
  with Cons.IH [OF wf] show ?case
    by (cases p) simp
qed

section \<open>Facts about types\<close>

lemma type_of_Scalar_iff: "type_of v = Some TScalar \<longleftrightarrow> is_string v"
  by (cases v) simp_all

lemma type_of_Sequence_iff:
  "type_of v = Some TSequence \<longleftrightarrow> (\<exists>xs. v = JArr xs \<and> list_all is_string xs)"
  by (cases v) simp_all

lemma is_string_iff: "is_string v \<longleftrightarrow> (\<exists>s. v = JStr s)"
  by (cases v) simp_all

text \<open>Wrapping a scalar gives a sequence; the elements of a sequence are scalars.\<close>

lemma type_of_wrap: "type_of v = Some TScalar \<Longrightarrow> type_of (JArr [v]) = Some TSequence"
  by (simp add: type_of_Scalar_iff)

lemma type_of_elems:
  "type_of v = Some TSequence \<Longrightarrow> x \<in> set (array_elems v) \<Longrightarrow> type_of x = Some TScalar"
  by (auto simp: type_of_Sequence_iff type_of_Scalar_iff list_all_iff)

text \<open>On a typed value the guard of the denormaliser asks whether it is empty.\<close>

lemma typed_present: "type_of v \<noteq> None \<Longrightarrow> present v \<longleftrightarrow> v \<noteq> JStr [] \<and> v \<noteq> JArr []"
  by (cases v) auto

lemma form_typed_Nil [simp]: "form_typed []"
  by (simp add: form_typed_def)

lemma form_typed_Cons [simp]:
  "form_typed (p # obj) \<longleftrightarrow> type_of (snd p) \<noteq> None \<and> form_typed obj"
  by (simp add: form_typed_def)

lemma form_typed_get:
  "form_typed obj \<Longrightarrow> k \<in> set (own_keys obj) \<Longrightarrow> type_of (obj_get obj k) \<noteq> None"
  by (induction obj) auto

lemma form_typed_set:
  "form_typed obj \<Longrightarrow> type_of v \<noteq> None \<Longrightarrow> form_typed (obj_set obj k v)"
  by (induction obj) (auto simp: obj_set_def)

lemma form_typed_filter: "form_typed obj \<Longrightarrow> form_typed (filter P obj)"
  by (simp add: form_typed_def list_all_iff)

end
