(* ===== verification/Denormalise.thy ===== *)
theory Denormalise
  imports JS_Value "HOL-Library.Sublist"
begin

text \<open>
  The parameter denormaliser: the local function \<open>denormaliseKvp\<close> of
  \<open>_getTabPanels\<close>, which walks the properties of the submitted form values and pushes
  the name and the value of every non-empty field other than the service identifier
  onto two parallel arrays.  The theory gives the loop as the code writes it (guard,
  pushes, enumeration), the reference definition it is meant to compute (a filter of
  the property list), and the lemmas relating the two.
\<close>

section \<open>The operation\<close>

text \<open>The reserved field name, written out three times in the source.\<close>

abbreviation cswServiceId :: string where
  "cswServiceId \<equiv> ''cswServiceId''"

text \<open>
  The guard \<open>kvpObj[key] && kvpObj[key].length>0 && key != 'cswServiceId'\<close>, evaluated
  left to right: the \<open>length\<close> read happens only for a truthy value.
\<close>

definition kvp_guard :: "jsobj \<Rightarrow> string \<Rightarrow> bool result" where
  "kvp_guard kvpObj key =
     (if truthy (obj_get kvpObj key)
      then res_bind (length_gt_zero (obj_get kvpObj key))
             (\<lambda>nonempty. Inr (nonempty \<and> key \<noteq> cswServiceId))
      else Inr False)"

text \<open>One iteration: the guard, then the two pushes.\<close>

definition kvp_step ::
  "jsobj \<Rightarrow> string \<Rightarrow> string list \<times> jsval list \<Rightarrow> (string list \<times> jsval list) result" where
  "kvp_step kvpObj key = (\<lambda>(keyList, valueList).
     res_bind (kvp_guard kvpObj key) (\<lambda>keep.
       Inr (if keep then (keyList @ [key], valueList @ [obj_get kvpObj key])
            else (keyList, valueList))))"

text \<open>
  The function: nothing happens for a missing object (\<open>None\<close>: \<open>undefined\<close> or
  \<open>null\<close>); otherwise the loop runs over the keys of the object.  The two arrays are
  passed in and returned, as the code mutates the arrays of its caller.
\<close>

definition denormaliseKvp ::
  "string list \<Rightarrow> jsval list \<Rightarrow> jsobj option \<Rightarrow> (string list \<times> jsval list) result" where
  "denormaliseKvp keyList valueList kvpObj =
     (case kvpObj of
        None \<Rightarrow> Inr (keyList, valueList)
      | Some obj \<Rightarrow> for_each (kvp_step obj) (own_keys obj) (keyList, valueList))"

section \<open>The reference definition\<close>

text \<open>
  A field is kept when its value is present and it is not the service identifier;
  the denormalised parameters are the kept fields, in the order of the object.
\<close>

definition kvp_keep :: "string \<times> jsval \<Rightarrow> bool" where
  "kvp_keep p \<longleftrightarrow> present (snd p) \<and> fst p \<noteq> cswServiceId"

definition kept_fields :: "jsobj \<Rightarrow> jsobj" where
  "kept_fields obj = filter kvp_keep obj"

lemmas denormalise_eval [csw_eval] = kvp_guard_def kvp_step_def denormaliseKvp_def

lemmas denormalise_spec [csw_spec] = kvp_keep_def kept_fields_def

section \<open>The guard never raises\<close>

lemma kvp_guard_total:
  "kvp_guard obj key = Inr (kvp_keep (key, obj_get obj key))"
  by (cases "obj_get obj key") (simp_all add: kvp_guard_def kvp_keep_def)

lemma kvp_step_total:
  "kvp_step obj key (ks, vs) =
     Inr (if kvp_keep (key, obj_get obj key) then (ks @ [key], vs @ [obj_get obj key])
          else (ks, vs))"
  by (simp add: kvp_step_def kvp_guard_total)

section \<open>The loop computes the filter\<close>

text \<open>
  Whatever the object, the loop is a filter over the keys with the values read back
  through the object.
\<close>

lemma denormaliseKvp_keys:
  "denormaliseKvp ks vs (Some obj) =
     Inr (ks @ filter (\<lambda>k. kvp_keep (k, obj_get obj k)) (own_keys obj),
          vs @ map (obj_get obj) (filter (\<lambda>k. kvp_keep (k, obj_get obj k)) (own_keys obj)))"
proof -
  let ?g = "\<lambda>k (ks, vs). if kvp_keep (k, obj_get obj k)
                then (ks @ [k], vs @ [obj_get obj k]) else (ks, vs)"
  have "for_each (kvp_step obj) (own_keys obj) (ks, vs) = Inr (fold ?g (own_keys obj) (ks, vs))"
    by (rule for_each_total) (simp add: kvp_step_total split: prod.split)
  then show ?thesis
    using fold_push_pair_filter [of "\<lambda>k. kvp_keep (k, obj_get obj k)" "\<lambda>k. k" "obj_get obj"]
    by (simp add: denormaliseKvp_def)
qed

lemma kept_fields_readback:
  assumes "wf_obj obj"
  shows "map (\<lambda>k. (k, obj_get obj k)) (filter (\<lambda>k. kvp_keep (k, obj_get obj k)) (own_keys obj))
           = kept_fields obj"
proof -
  have "map (\<lambda>k. (k, obj_get obj k)) (filter (\<lambda>k. kvp_keep (k, obj_get obj k)) (own_keys obj))
      = filter kvp_keep (map (\<lambda>k. (k, obj_get obj k)) (own_keys obj))"
    by (simp add: filter_map comp_def)
  with obj_readback [OF assms] show ?thesis
    by (simp add: kept_fields_def)
qed


lemma kept_fields_keys:
  "wf_obj obj \<Longrightarrow>
     map fst (kept_fields obj) = filter (\<lambda>k. kvp_keep (k, obj_get obj k)) (own_keys obj)"
  by (simp add: kept_fields_readback [symmetric] comp_def)

lemma kept_fields_values:
  "wf_obj obj \<Longrightarrow>
     map snd (kept_fields obj)
       = map (obj_get obj) (filter (\<lambda>k. kvp_keep (k, obj_get obj k)) (own_keys obj))"
  by (simp add: kept_fields_readback [symmetric] comp_def)

text \<open>On a well-formed object the loop returns the kept fields, names and values.\<close>

lemma denormaliseKvp_kept:
  assumes "wf_obj obj"
  shows "denormaliseKvp ks vs (Some obj) =
           Inr (ks @ map fst (kept_fields obj), vs @ map snd (kept_fields obj))"
  using assms by (simp add: denormaliseKvp_keys kept_fields_keys kept_fields_values)

lemma denormaliseKvp_None [simp]: "denormaliseKvp ks vs None = Inr (ks, vs)"
  by (simp add: denormaliseKvp_def)

text \<open>
  Everything the function can return, in one rule: the arrays given, extended by
  parallel lists of names and values; no name is the service identifier, every value
  is present, and the names are a subsequence of the keys of the object (of no keys
  for a missing object).
\<close>

lemma denormaliseKvp_InrE:
  assumes "denormaliseKvp ks vs kvpObj = Inr (ks', vs')"
  obtains sel vals where "ks' = ks @ sel" and "vs' = vs @ vals"
    and "length sel = length vals" and "cswServiceId \<notin> set sel"
    and "list_all present vals"
    and "subseq sel (case kvpObj of None \<Rightarrow> [] | Some obj \<Rightarrow> own_keys obj)"
proof (cases kvpObj)
  case None
  with assms that [of "[]" "[]"] show thesis by simp
next
  case (Some obj)
  let ?sel = "filter (\<lambda>k. kvp_keep (k, obj_get obj k)) (own_keys obj)"
  have "list_all present (map (obj_get obj) ?sel)" and "cswServiceId \<notin> set ?sel"
    by (auto simp: list_all_iff kvp_keep_def)
  with assms Some that [of ?sel "map (obj_get obj) ?sel"] show thesis
    by (simp add: denormaliseKvp_keys)
qed

lemma denormaliseKvp_returns:
  obtains ks' vs' where "denormaliseKvp ks vs kvpObj = Inr (ks', vs')"
  by (cases kvpObj) (simp_all add: denormaliseKvp_keys)

section \<open>The properties of the denormaliser\<close>

text \<open>
  C1.  For an object (no property twice), \<open>denormaliseKvp\<close> never raises and returns
  the two arrays it was given, extended by the names and by the values of the kept
  fields: the fields whose value is a non-empty string or a non-empty array and whose
  name is not \<open>cswServiceId\<close>, in the enumeration order of the object.
\<close>

theorem denormaliseKvp_filter:
  assumes "wf_obj obj"
  shows "denormaliseKvp ks vs (Some obj) =
           Inr (ks @ map fst (kept_fields obj), vs @ map snd (kept_fields obj))"
  using assms by (rule denormaliseKvp_kept)

theorem denormaliseKvp_filter_witness:
  "wf_obj [(''keyword'', JStr ''ice''), (''bbox'', JArr []), (''cswServiceId'', JStr ''srv1'')]
   \<and> denormaliseKvp [] []
        (Some [(''keyword'', JStr ''ice''), (''bbox'', JArr []), (''cswServiceId'', JStr ''srv1'')])
     = Inr ([''keyword''], [JStr ''ice''])"
proof -
  have wf: "wf_obj [(''keyword'', JStr ''ice''), (''bbox'', JArr []),
      (''cswServiceId'', JStr ''srv1'')]"
    by (simp add: csw_spec csw_eval)
  have run: "denormaliseKvp [] [] (Some [(''keyword'', JStr ''ice''), (''bbox'', JArr []),
      (''cswServiceId'', JStr ''srv1'')]) = Inr ([''keyword''], [JStr ''ice''])"
    by (simp add: csw_eval)
  from denormaliseKvp_filter [OF wf, of "[]" "[]"] wf run show ?thesis
    by (simp add: csw_spec)
qed

text \<open>
  C14.  \<open>denormaliseKvp\<close> returns normally on every input, object or not, well-formed
  or not: the \<open>length\<close> read of its guard cannot raise, because the truthiness test
  in front of it has excluded \<open>undefined\<close> and \<open>null\<close>.
\<close>

theorem denormaliseKvp_never_raises: "denormaliseKvp ks vs kvpObj \<noteq> Inl e"
  by (rule denormaliseKvp_returns [of ks vs kvpObj]) simp

text \<open>
  C21.  The two arrays stay parallel: the function pushes onto both or onto neither,
  so arrays of equal length come back with equal length.
\<close>

theorem denormaliseKvp_parallel:
  assumes "denormaliseKvp ks vs kvpObj = Inr (ks', vs')" and "length ks = length vs"
  shows "length ks' = length vs'"
  using assms(1) by (rule denormaliseKvp_InrE) (simp add: assms(2))

theorem denormaliseKvp_parallel_witness:
  "denormaliseKvp [''a''] [JNull] (Some [(''keyword'', JStr ''ice'')])
     = Inr ([''a'', ''keyword''], [JNull, JStr ''ice''])
   \<and> length [''a''] = length [JNull]
   \<and> length [''a'', ''keyword''] = length [JNull, JStr ''ice'']"
proof -
  have run: "denormaliseKvp [''a''] [JNull] (Some [(''keyword'', JStr ''ice'')])
      = Inr ([''a'', ''keyword''], [JNull, JStr ''ice''])"
    by (simp add: csw_eval)
  from denormaliseKvp_parallel [OF run] run show ?thesis
    by simp
qed

text \<open>
  C19.  The service identifier never comes out of the loop: started on empty arrays,
  no name pushed is \<open>cswServiceId\<close>, also when the object holds that field with a
  non-empty value.
\<close>

theorem denormaliseKvp_excludes_service_id:
  assumes "denormaliseKvp [] [] kvpObj = Inr (ks, vs)"
  shows "cswServiceId \<notin> set ks"
  using assms by (rule denormaliseKvp_InrE) simp

theorem denormaliseKvp_excludes_service_id_witness:
  "denormaliseKvp [] [] (Some [(''cswServiceId'', JArr [JStr ''srv1'', JStr ''srv2'']),
       (''keyword'', JStr ''ice'')]) = Inr ([''keyword''], [JStr ''ice''])
   \<and> cswServiceId \<notin> set [''keyword'']"
proof -
  have run: "denormaliseKvp [] [] (Some [(''cswServiceId'', JArr [JStr ''srv1'', JStr ''srv2'']),
       (''keyword'', JStr ''ice'')]) = Inr ([''keyword''], [JStr ''ice''])"
    by (simp add: csw_eval)
  from denormaliseKvp_excludes_service_id [OF run] run show ?thesis
    by simp
qed

text \<open>
  C20.  Every value pushed is present: a non-empty string or a non-empty array.  Empty
  strings, empty arrays, \<open>undefined\<close>, \<open>null\<close>, and also every boolean and number (they
  have no \<open>length\<close>) are dropped without an error.
\<close>

theorem denormaliseKvp_values_present:
  assumes "denormaliseKvp [] [] kvpObj = Inr (ks, vs)" and "v \<in> set vs"
  shows "present v"
  using assms(1) by (rule denormaliseKvp_InrE) (use assms(2) in \<open>simp add: list_all_iff\<close>)

theorem denormaliseKvp_values_present_witness:
  "denormaliseKvp [] [] (Some [(''a'', JStr []), (''b'', JArr []), (''c'', JNull),
       (''d'', JNum 5), (''e'', JBool True), (''f'', JArr [JStr ''1'', JStr ''2''])])
     = Inr ([''f''], [JArr [JStr ''1'', JStr ''2'']])
   \<and> JArr [JStr ''1'', JStr ''2''] \<in> set [JArr [JStr ''1'', JStr ''2'']]
   \<and> present (JArr [JStr ''1'', JStr ''2''])"
proof -
  have run: "denormaliseKvp [] [] (Some [(''a'', JStr []), (''b'', JArr []), (''c'', JNull),
       (''d'', JNum 5), (''e'', JBool True), (''f'', JArr [JStr ''1'', JStr ''2''])])
     = Inr ([''f''], [JArr [JStr ''1'', JStr ''2'']])"
    by (simp add: csw_eval)
  from denormaliseKvp_values_present [OF run, of "JArr [JStr ''1'', JStr ''2'']"] run
  show ?thesis by simp
qed

text \<open>
  C22.  The names come out in the enumeration order of the object: they are a
  subsequence of its keys.
\<close>

theorem denormaliseKvp_order:
  assumes "denormaliseKvp [] [] (Some obj) = Inr (ks, vs)"
  shows "subseq ks (own_keys obj)"
  using assms by (rule denormaliseKvp_InrE) simp

theorem denormaliseKvp_order_witness:
  "denormaliseKvp [] [] (Some [(''b'', JStr ''2''), (''z'', JStr []), (''a'', JStr ''1'')])
     = Inr ([''b'', ''a''], [JStr ''2'', JStr ''1''])
   \<and> subseq [''b'', ''a''] (own_keys [(''b'', JStr ''2''), (''z'', JStr []), (''a'', JStr ''1'')])"
proof -
  have run: "denormaliseKvp [] [] (Some [(''b'', JStr ''2''), (''z'', JStr []), (''a'', JStr ''1'')])
     = Inr ([''b'', ''a''], [JStr ''2'', JStr ''1''])"
    by (simp add: csw_eval)
  from denormaliseKvp_order [OF run] run show ?thesis
    by simp
qed

end
