(* ===== verification/Tab_Panels.thy ===== *)
theory Tab_Panels
  imports Denormalise
begin

text \<open>
  The task builder for one service: the method \<open>_getTabPanels\<close>.  It denormalises the
  form values, appends the service identifier as the last parameter, configures a
  paged store that will query with these parameters, looks the title of the service
  up among the checked registries, and returns the description of one result panel.
  The lemmas show the title loop to be a search for the first match, give the panel
  returned on every input, and establish the invariant \<open>panel_wf\<close> of every panel and,
  on typed form values, the types of its parameters (\<open>panel_typed\<close>).
\<close>

section \<open>The store configuration\<close>

text \<open>
  The configuration object handed to \<open>Ext.create('Ext.data.Store', ...)\<close>, field by
  field.  The store is data: nothing is loaded when it is created.
\<close>

record json_reader =
  reader_type :: string
  root :: string
  successProperty :: string
  totalProperty :: string

record extra_params =
  ep_key :: "string list"
  ep_value :: "jsval list"

record ajax_proxy =
  proxy_type :: string
  url :: string
  reader :: json_reader
  extraParams :: extra_params

record csw_store =
  model :: string
  pageSize :: nat
  autoLoad :: bool
  proxy :: ajax_proxy

definition filterCSWStore :: "string list \<Rightarrow> jsval list \<Rightarrow> csw_store" where
  "filterCSWStore keys values =
     \<lparr> model = ''portal.csw.CSWRecord'',
       pageSize = 35,
       autoLoad = False,
       proxy = \<lparr> proxy_type = ''ajax'',
                 url = ''getFilteredCSWRecords.do'',
                 reader = \<lparr> reader_type = ''json'',
                            root = ''data'',
                            successProperty = ''success'',
                            totalProperty = ''totalResults'' \<rparr>,
                 extraParams = \<lparr> ep_key = keys, ep_value = values \<rparr> \<rparr> \<rparr>"

section \<open>The registry of services\<close>

text \<open>
  The checkbox group \<open>registryTabCheckboxGroup\<close> holds one checkbox per registry:
  its \<open>inputValue\<close> is the service identifier, its \<open>boxLabel\<close> the title shown.  The
  component manager maps the identifiers of the components that exist to them;
  \<open>Ext.getCmp\<close> of any other identifier is \<open>undefined\<close>.
\<close>

record checkbox =
  inputValue :: string
  boxLabel :: string
  checked :: bool

type_synonym component_manager = "string \<Rightarrow> checkbox list option"

definition getCmp :: "component_manager \<Rightarrow> string \<Rightarrow> checkbox list option" where
  "getCmp cm ident = cm ident"

definition getChecked :: "checkbox list \<Rightarrow> checkbox list" where
  "getChecked boxes = filter checked boxes"

text \<open>
  \<open>Ext.getCmp('registryTabCheckboxGroup').getChecked()\<close>: the method call on a
  component that does not exist raises a TypeError.
\<close>

definition registriesArray :: "component_manager \<Rightarrow> checkbox list result" where
  "registriesArray cm =
     (case getCmp cm ''registryTabCheckboxGroup'' of
        None \<Rightarrow> Inl TypeError
      | Some boxes \<Rightarrow> Inr (getChecked boxes))"

section \<open>The title\<close>

text \<open>
  The counting loop with its \<open>break\<close>: the label of the first checked registry whose
  value is strictly equal to the service identifier; the title it started with when the
  index runs off the array.
\<close>

function title_loop :: "checkbox list \<Rightarrow> jsval \<Rightarrow> nat \<Rightarrow> string \<Rightarrow> string" where
  "title_loop regs serviceId i title =
     (if i < length regs
      then (if strict_eq_str (inputValue (regs ! i)) serviceId
            then boxLabel (regs ! i)
            else title_loop regs serviceId (Suc i) title)
      else title)"
  by pat_completeness auto
termination
  by (relation "measure (\<lambda>(regs, serviceId, i, title). length regs - i)") auto

declare title_loop.simps [simp del]

definition resolve_title :: "checkbox list \<Rightarrow> jsval \<Rightarrow> string" where
  "resolve_title regs serviceId = title_loop regs serviceId 0 ''Error retrieving title''"

section \<open>The panel\<close>

record tab_panel =
  title :: string
  xtype :: string
  layout :: string
  store :: csw_store

definition getTabPanels :: "component_manager \<Rightarrow> jsobj option \<Rightarrow> jsval \<Rightarrow> tab_panel result" where
  "getTabPanels cm params serviceId =
     res_bind (denormaliseKvp [] [] params) (\<lambda>(keys, values).
       let keys = keys @ [cswServiceId];
           values = values @ [serviceId];
           filterCSWStore = filterCSWStore keys values
       in res_bind (registriesArray cm) (\<lambda>regs.
            Inr \<lparr> title = resolve_title regs serviceId,
                  xtype = ''cswrecordpagingpanel'',
                  layout = ''fit'',
                  store = filterCSWStore \<rparr>))"

lemmas tab_panels_eval [csw_eval] =
  filterCSWStore_def getCmp_def getChecked_def registriesArray_def resolve_title_def
  title_loop.simps getTabPanels_def

text \<open>The parameters a panel will query with, read off its store.\<close>

abbreviation panel_keys :: "tab_panel \<Rightarrow> string list" where
  "panel_keys p \<equiv> ep_key (extraParams (proxy (store p)))"

abbreviation panel_values :: "tab_panel \<Rightarrow> jsval list" where
  "panel_values p \<equiv> ep_value (extraParams (proxy (store p)))"

text \<open>
  The invariant of a panel: it is a paging panel laid out to fit, its store is the
  configuration of lines 102 to 122 over its own parameters, and the parameters are
  a parameter list as the specification defines one, closed by the service identifier
  (parallel arrays, \<open>cswServiceId\<close> last and nowhere else, every other value present).
\<close>

definition panel_wf :: "tab_panel \<Rightarrow> bool" where
  "panel_wf p \<longleftrightarrow>
     xtype p = ''cswrecordpagingpanel'' \<and> layout p = ''fit''
     \<and> store p = filterCSWStore (panel_keys p) (panel_values p)
     \<and> length (panel_keys p) = length (panel_values p)
     \<and> panel_keys p \<noteq> [] \<and> last (panel_keys p) = cswServiceId
     \<and> cswServiceId \<notin> set (butlast (panel_keys p))
     \<and> list_all present (butlast (panel_values p))"

text \<open>
  A panel is well-typed when each of its parameter values is a form value and the
  last one, the service identifier, is a string.
\<close>

definition panel_typed :: "tab_panel \<Rightarrow> bool" where
  "panel_typed p \<longleftrightarrow>
     list_all (\<lambda>v. type_of v \<noteq> None) (panel_values p)
     \<and> panel_values p \<noteq> [] \<and> type_of (last (panel_values p)) = Some TScalar"

declare panel_wf_def [csw_spec] panel_typed_def [csw_spec]

section \<open>The title loop is a search\<close>

lemma title_loop_find:
  "title_loop regs sid i t =
     (case List.find (\<lambda>e. strict_eq_str (inputValue e) sid) (drop i regs) of
        None \<Rightarrow> t
      | Some e \<Rightarrow> boxLabel e)"
proof (induction regs sid i t rule: title_loop.induct)
  case (1 regs sid i t)
  show ?case
  proof (cases "i < length regs")
    case True
    with "1.IH" show ?thesis
      by (subst title_loop.simps) (simp add: drop_index_Cons)
  next
    case False
    then show ?thesis
      by (subst title_loop.simps) simp
  qed
qed

lemma resolve_title_find:
  "resolve_title regs sid =
     (case List.find (\<lambda>e. strict_eq_str (inputValue e) sid) regs of
        None \<Rightarrow> ''Error retrieving title''
      | Some e \<Rightarrow> boxLabel e)"
  by (simp add: resolve_title_def title_loop_find)

lemma resolve_title_Nil [simp]: "resolve_title [] sid = ''Error retrieving title''"
  by (simp add: resolve_title_find)

lemma resolve_title_Cons [simp]:
  "resolve_title (e # regs) sid =
     (if strict_eq_str (inputValue e) sid then boxLabel e else resolve_title regs sid)"
  by (simp add: resolve_title_find)

text \<open>
  C4.  First match wins: when the registry at position \<open>i\<close> carries the identifier and
  no registry before it does, the title is its label, whatever follows.
\<close>

theorem resolve_title_first_match:
  assumes "i < length regs" and "inputValue (regs ! i) = s"
    and "\<forall>j<i. inputValue (regs ! j) \<noteq> s"
  shows "resolve_title regs (JStr s) = boxLabel (regs ! i)"
proof -
  from assms have "List.find (\<lambda>e. strict_eq_str (inputValue e) (JStr s)) regs = Some (regs ! i)"
    by (auto simp: find_Some_iff)
  then show ?thesis
    by (simp add: resolve_title_find)
qed

theorem resolve_title_first_match_witness:
  "(1::nat) < length [\<lparr>inputValue = ''srv0'', boxLabel = ''Zero'', checked = True\<rparr>,
        \<lparr>inputValue = ''srv1'', boxLabel = ''Registry One'', checked = True\<rparr>,
        \<lparr>inputValue = ''srv1'', boxLabel = ''Shadowed'', checked = True\<rparr>]
   \<and> resolve_title [\<lparr>inputValue = ''srv0'', boxLabel = ''Zero'', checked = True\<rparr>,
        \<lparr>inputValue = ''srv1'', boxLabel = ''Registry One'', checked = True\<rparr>,
        \<lparr>inputValue = ''srv1'', boxLabel = ''Shadowed'', checked = True\<rparr>] (JStr ''srv1'')
     = ''Registry One''"
proof -
  let ?regs = "[\<lparr>inputValue = ''srv0'', boxLabel = ''Zero'', checked = True\<rparr>,
        \<lparr>inputValue = ''srv1'', boxLabel = ''Registry One'', checked = True\<rparr>,
        \<lparr>inputValue = ''srv1'', boxLabel = ''Shadowed'', checked = True\<rparr>]"
  have pos: "1 < length ?regs" and here: "inputValue (?regs ! 1) = ''srv1''"
    and before: "\<forall>j<1. inputValue (?regs ! j) \<noteq> ''srv1''"
    by simp_all
  have run: "resolve_title ?regs (JStr ''srv1'') = ''Registry One''"
    by (simp add: csw_eval)
  from resolve_title_first_match [OF pos here before] pos run show ?thesis
    by simp
qed

text \<open>
  C7.  A lookup miss degrades to the fixed title: when no checked registry carries
  the identifier, the title is \<open>Error retrieving title\<close>.
\<close>

theorem resolve_title_fallback:
  assumes "s \<notin> inputValue ` set regs"
  shows "resolve_title regs (JStr s) = ''Error retrieving title''"
proof -
  from assms have "List.find (\<lambda>e. strict_eq_str (inputValue e) (JStr s)) regs = None"
    by (auto simp: find_None_iff)
  then show ?thesis
    by (simp add: resolve_title_find)
qed

theorem resolve_title_fallback_witness:
  "''srv2'' \<notin> inputValue ` set [\<lparr>inputValue = ''srv1'', boxLabel = ''Registry One'', checked = True\<rparr>]
   \<and> resolve_title [\<lparr>inputValue = ''srv1'', boxLabel = ''Registry One'', checked = True\<rparr>]
        (JStr ''srv2'') = ''Error retrieving title''"
proof -
  let ?regs = "[\<lparr>inputValue = ''srv1'', boxLabel = ''Registry One'', checked = True\<rparr>]"
  have miss: "''srv2'' \<notin> inputValue ` set ?regs"
    by simp
  have run: "resolve_title ?regs (JStr ''srv2'') = ''Error retrieving title''"
    by (simp add: csw_eval)
  from resolve_title_fallback [OF miss] miss run show ?thesis
    by simp
qed

text \<open>
  C17.  A title other than the fallback is never made up: it is the label of a registry
  that is checked and carries the identifier.  An unchecked registry never gives the
  title, even when the group knows the service.
\<close>

theorem title_from_checked_registry:
  assumes "resolve_title (getChecked boxes) (JStr s) = l" and "l \<noteq> ''Error retrieving title''"
  shows "\<exists>b \<in> set boxes. checked b \<and> inputValue b = s \<and> boxLabel b = l"
proof (cases "List.find (\<lambda>e. strict_eq_str (inputValue e) (JStr s)) (getChecked boxes)")
  case None
  with assms show ?thesis
    by (simp add: resolve_title_find)
next
  case (Some b)
  then have "b \<in> set (getChecked boxes)" and "inputValue b = s"
    by (auto simp: find_Some_iff)
  with assms(1) Some show ?thesis
    by (auto simp: resolve_title_find getChecked_def)
qed

theorem title_from_checked_registry_witness:
  "resolve_title (getChecked [\<lparr>inputValue = ''srv1'', boxLabel = ''Unchecked'', checked = False\<rparr>,
        \<lparr>inputValue = ''srv1'', boxLabel = ''Registry One'', checked = True\<rparr>]) (JStr ''srv1'')
     = ''Registry One''
   \<and> ''Registry One'' \<noteq> ''Error retrieving title''
   \<and> (\<exists>b \<in> set [\<lparr>inputValue = ''srv1'', boxLabel = ''Unchecked'', checked = False\<rparr>,
        \<lparr>inputValue = ''srv1'', boxLabel = ''Registry One'', checked = True\<rparr>].
        checked b \<and> inputValue b = ''srv1'' \<and> boxLabel b = ''Registry One'')"
proof -
  let ?boxes = "[\<lparr>inputValue = ''srv1'', boxLabel = ''Unchecked'', checked = False\<rparr>,
        \<lparr>inputValue = ''srv1'', boxLabel = ''Registry One'', checked = True\<rparr>]"
  have run: "resolve_title (getChecked ?boxes) (JStr ''srv1'') = ''Registry One''"
    by (simp add: csw_eval)
  have other: "''Registry One'' \<noteq> ''Error retrieving title''"
    by simp
  from title_from_checked_registry [OF run other] run show ?thesis
    by simp
qed

text \<open>
  The comparison is strict: an identifier that is not a string matches no registry.
\<close>

lemma resolve_title_not_string:
  "(\<And>s. sid \<noteq> JStr s) \<Longrightarrow> resolve_title regs sid = ''Error retrieving title''"
  by (induction regs) (auto simp: strict_eq_str_def)

section \<open>The panel of one service\<close>

lemma registriesArray_Some [simp]:
  "cm ''registryTabCheckboxGroup'' = Some boxes \<Longrightarrow> registriesArray cm = Inr (getChecked boxes)"
  by (simp add: registriesArray_def getCmp_def)

lemma registriesArray_None [simp]:
  "cm ''registryTabCheckboxGroup'' = None \<Longrightarrow> registriesArray cm = Inl TypeError"
  by (simp add: registriesArray_def getCmp_def)

text \<open>The result in terms of the keys of the object, for any object.\<close>

lemma getTabPanels_keys:
  assumes "cm ''registryTabCheckboxGroup'' = Some boxes"
  shows "getTabPanels cm (Some obj) sid =
     Inr \<lparr> title = resolve_title (getChecked boxes) sid,
           xtype = ''cswrecordpagingpanel'',
           layout = ''fit'',
           store = filterCSWStore
             (filter (\<lambda>k. kvp_keep (k, obj_get obj k)) (own_keys obj) @ [cswServiceId])
             (map (obj_get obj) (filter (\<lambda>k. kvp_keep (k, obj_get obj k)) (own_keys obj)) @ [sid]) \<rparr>"
  using assms by (simp add: getTabPanels_def denormaliseKvp_keys)

text \<open>
  C3.  With the checkbox group in place and a well-formed object of form values,
  \<open>_getTabPanels\<close> returns the panel whose title is the resolved title and whose store
  queries with the names and values of the kept fields followed by the pair
  \<open>cswServiceId\<close>, the service identifier it was called with.
\<close>

theorem getTabPanels_result:
  assumes "cm ''registryTabCheckboxGroup'' = Some boxes" and "wf_obj obj"
  shows "getTabPanels cm (Some obj) sid =
     Inr \<lparr> title = resolve_title (getChecked boxes) sid,
           xtype = ''cswrecordpagingpanel'',
           layout = ''fit'',
           store = filterCSWStore (map fst (kept_fields obj) @ [cswServiceId])
                                  (map snd (kept_fields obj) @ [sid]) \<rparr>"
  using assms by (simp add: getTabPanels_keys kept_fields_keys kept_fields_values)

theorem getTabPanels_result_witness:
  "[''registryTabCheckboxGroup'' \<mapsto>
      [\<lparr>inputValue = ''srv1'', boxLabel = ''Registry One'', checked = True\<rparr>]]
     ''registryTabCheckboxGroup''
     = Some [\<lparr>inputValue = ''srv1'', boxLabel = ''Registry One'', checked = True\<rparr>]
   \<and> wf_obj [(''keyword'', JStr ''ice''), (''cswServiceId'', JStr ''srv1'')]
   \<and> getTabPanels
        [''registryTabCheckboxGroup'' \<mapsto>
           [\<lparr>inputValue = ''srv1'', boxLabel = ''Registry One'', checked = True\<rparr>]]
        (Some [(''keyword'', JStr ''ice''), (''cswServiceId'', JStr ''srv1'')]) (JStr ''srv1'')
     = Inr \<lparr> title = ''Registry One'', xtype = ''cswrecordpagingpanel'', layout = ''fit'',
             store = filterCSWStore [''keyword'', ''cswServiceId''] [JStr ''ice'', JStr ''srv1''] \<rparr>"
proof -
  let ?cm = "[''registryTabCheckboxGroup'' \<mapsto>
      [\<lparr>inputValue = ''srv1'', boxLabel = ''Registry One'', checked = True\<rparr>]]"
  have cm: "?cm ''registryTabCheckboxGroup''
      = Some [\<lparr>inputValue = ''srv1'', boxLabel = ''Registry One'', checked = True\<rparr>]"
    by simp
  have wf: "wf_obj [(''keyword'', JStr ''ice''), (''cswServiceId'', JStr ''srv1'')]"
    by (simp add: csw_spec csw_eval)
  have run: "getTabPanels ?cm (Some [(''keyword'', JStr ''ice''), (''cswServiceId'', JStr ''srv1'')])
      (JStr ''srv1'')
    = Inr \<lparr> title = ''Registry One'', xtype = ''cswrecordpagingpanel'', layout = ''fit'',
            store = filterCSWStore [''keyword'', ''cswServiceId''] [JStr ''ice'', JStr ''srv1''] \<rparr>"
    by (simp add: csw_eval)
  from getTabPanels_result [where cm = ?cm and sid = "JStr ''srv1''", OF cm wf] cm wf run
  show ?thesis
    by simp
qed

text \<open>
  C23.  \<open>_getTabPanels\<close> returns normally exactly when the checkbox group exists; the
  form values, whatever they are, cannot make it raise.
\<close>

theorem getTabPanels_returns_iff:
  "(\<exists>p. getTabPanels cm params sid = Inr p) \<longleftrightarrow> cm ''registryTabCheckboxGroup'' \<noteq> None"
proof -
  obtain ks vs where "denormaliseKvp [] [] params = Inr (ks, vs)"
    by (rule denormaliseKvp_returns)
  then show ?thesis
    by (cases "cm ''registryTabCheckboxGroup''") (auto simp: getTabPanels_def)
qed

text \<open>
  Without the checkbox group, \<open>_getTabPanels\<close> raises a TypeError: the fallback title
  covers a missing registry entry, not a missing registry.
\<close>

lemma getTabPanels_no_group:
  assumes "cm ''registryTabCheckboxGroup'' = None"
  shows "getTabPanels cm params sid = Inl TypeError"
proof -
  obtain ks vs where "denormaliseKvp [] [] params = Inr (ks, vs)"
    by (rule denormaliseKvp_returns)
  with assms show ?thesis
    by (simp add: getTabPanels_def)
qed

section \<open>Properties of every panel\<close>

text \<open>What a returned panel is made of, for any parameters.\<close>

lemma getTabPanels_InrD:
  assumes "getTabPanels cm params sid = Inr p"
  obtains ks vs boxes where "denormaliseKvp [] [] params = Inr (ks, vs)"
    and "cm ''registryTabCheckboxGroup'' = Some boxes"
    and "p = \<lparr> title = resolve_title (getChecked boxes) sid, xtype = ''cswrecordpagingpanel'',
               layout = ''fit'', store = filterCSWStore (ks @ [cswServiceId]) (vs @ [sid]) \<rparr>"
proof -
  obtain ks vs where d: "denormaliseKvp [] [] params = Inr (ks, vs)"
    by (rule denormaliseKvp_returns)
  with assms obtain boxes where "cm ''registryTabCheckboxGroup'' = Some boxes"
    by (cases "cm ''registryTabCheckboxGroup''") (auto simp: getTabPanels_def)
  with d assms that show thesis
    by (auto simp: getTabPanels_def)
qed

lemma getTabPanels_wf:
  assumes "getTabPanels cm params sid = Inr p"
  shows "panel_wf p"
proof -
  from assms obtain ks vs boxes where d: "denormaliseKvp [] [] params = Inr (ks, vs)"
    and p: "p = \<lparr> title = resolve_title (getChecked boxes) sid, xtype = ''cswrecordpagingpanel'',
               layout = ''fit'', store = filterCSWStore (ks @ [cswServiceId]) (vs @ [sid]) \<rparr>"
    by (rule getTabPanels_InrD)
  from d have "length ks = length vs" and "cswServiceId \<notin> set ks" and "list_all present vs"
    by (auto elim!: denormaliseKvp_InrE)
  with p show ?thesis
    by (simp add: panel_wf_def filterCSWStore_def)
qed

text \<open>The parameters of a panel returned for an object.\<close>

lemma getTabPanels_params:
  assumes "getTabPanels cm (Some obj) sid = Inr p"
  shows "panel_keys p = filter (\<lambda>k. kvp_keep (k, obj_get obj k)) (own_keys obj) @ [cswServiceId]"
    and "panel_values p
      = map (obj_get obj) (filter (\<lambda>k. kvp_keep (k, obj_get obj k)) (own_keys obj)) @ [sid]"
proof -
  from assms obtain boxes where "cm ''registryTabCheckboxGroup'' = Some boxes"
    by (auto elim: getTabPanels_InrD)
  with assms show "panel_keys p
      = filter (\<lambda>k. kvp_keep (k, obj_get obj k)) (own_keys obj) @ [cswServiceId]"
    and "panel_values p
      = map (obj_get obj) (filter (\<lambda>k. kvp_keep (k, obj_get obj k)) (own_keys obj)) @ [sid]"
    by (auto simp: getTabPanels_keys [where cm = cm] filterCSWStore_def)
qed

text \<open>Typed form values and a string as identifier give a well-typed panel.\<close>

lemma getTabPanels_typed:
  assumes "getTabPanels cm (Some obj) sid = Inr p" and "form_typed obj"
    and "type_of sid = Some TScalar"
  shows "panel_typed p"
proof -
  have "list_all (\<lambda>v. type_of v \<noteq> None)
      (map (obj_get obj) (filter (\<lambda>k. kvp_keep (k, obj_get obj k)) (own_keys obj)))"
    using assms(2) by (auto simp: list_all_iff dest: form_typed_get)
  with assms(3) show ?thesis
    by (simp add: panel_typed_def getTabPanels_params [OF assms(1)])
qed

text \<open>
  C16.  In every panel returned the parameter names and values are parallel arrays,
  the name \<open>cswServiceId\<close> occurs exactly once, as the last name, and the last value is
  the service identifier the panel was built for.
\<close>

theorem getTabPanels_service_id_last:
  assumes "getTabPanels cm params sid = Inr p"
  shows "length (panel_keys p) = length (panel_values p)
       \<and> count_list (panel_keys p) cswServiceId = 1
       \<and> last (panel_keys p) = cswServiceId
       \<and> last (panel_values p) = sid"
proof -
  from assms obtain ks vs boxes where d: "denormaliseKvp [] [] params = Inr (ks, vs)"
    and p: "p = \<lparr> title = resolve_title (getChecked boxes) sid, xtype = ''cswrecordpagingpanel'',
               layout = ''fit'', store = filterCSWStore (ks @ [cswServiceId]) (vs @ [sid]) \<rparr>"
    by (rule getTabPanels_InrD)
  from d have "length ks = length vs" and "cswServiceId \<notin> set ks"
    by (auto elim: denormaliseKvp_InrE)
  then have "length ks = length vs" and "count_list ks cswServiceId = 0"
    by (simp_all add: count_list_0_iff)
  then show ?thesis
    by (simp add: p filterCSWStore_def)
qed

theorem getTabPanels_service_id_last_witness:
  "getTabPanels [''registryTabCheckboxGroup'' \<mapsto> []]
       (Some [(''cswServiceId'', JArr [JStr ''a'', JStr ''b'']), (''keyword'', JStr ''ice'')])
       (JStr ''b'')
     = Inr \<lparr> title = ''Error retrieving title'', xtype = ''cswrecordpagingpanel'', layout = ''fit'',
             store = filterCSWStore [''keyword'', ''cswServiceId''] [JStr ''ice'', JStr ''b''] \<rparr>
   \<and> count_list [''keyword'', ''cswServiceId''] cswServiceId = 1
   \<and> last [JStr ''ice'', JStr ''b''] = JStr ''b''"
proof -
  let ?cm = "[''registryTabCheckboxGroup'' \<mapsto> ([] :: checkbox list)]"
  let ?obj = "[(''cswServiceId'', JArr [JStr ''a'', JStr ''b'']), (''keyword'', JStr ''ice'')]"
  have run: "getTabPanels ?cm (Some ?obj) (JStr ''b'')
     = Inr \<lparr> title = ''Error retrieving title'', xtype = ''cswrecordpagingpanel'', layout = ''fit'',
             store = filterCSWStore [''keyword'', ''cswServiceId''] [JStr ''ice'', JStr ''b''] \<rparr>"
    by (simp add: csw_eval)
  from getTabPanels_service_id_last [OF run] run show ?thesis
    by (simp add: filterCSWStore_def)
qed

text \<open>
  C35.  Every panel returned carries a store that is not loaded when it is created
  and pages by 35 records from \<open>getFilteredCSWRecords.do\<close>.
\<close>

theorem getTabPanels_store_paging:
  assumes "getTabPanels cm params sid = Inr p"
  shows "pageSize (store p) = 35 \<and> \<not> autoLoad (store p)
       \<and> url (proxy (store p)) = ''getFilteredCSWRecords.do''"
proof -
  from assms obtain ks vs boxes where
    "p = \<lparr> title = resolve_title (getChecked boxes) sid, xtype = ''cswrecordpagingpanel'',
               layout = ''fit'', store = filterCSWStore (ks @ [cswServiceId]) (vs @ [sid]) \<rparr>"
    by (rule getTabPanels_InrD)
  then show ?thesis
    by (simp add: filterCSWStore_def)
qed

theorem getTabPanels_store_paging_witness:
  "getTabPanels [''registryTabCheckboxGroup'' \<mapsto> []] None JNull
     = Inr \<lparr> title = ''Error retrieving title'', xtype = ''cswrecordpagingpanel'', layout = ''fit'',
             store = filterCSWStore [''cswServiceId''] [JNull] \<rparr>
   \<and> pageSize (filterCSWStore [''cswServiceId''] [JNull]) = 35
   \<and> \<not> autoLoad (filterCSWStore [''cswServiceId''] [JNull])"
proof -
  have run: "getTabPanels [''registryTabCheckboxGroup'' \<mapsto> ([] :: checkbox list)] None JNull
     = Inr \<lparr> title = ''Error retrieving title'', xtype = ''cswrecordpagingpanel'', layout = ''fit'',
             store = filterCSWStore [''cswServiceId''] [JNull] \<rparr>"
    by (simp add: csw_eval)
  from getTabPanels_store_paging [OF run] run show ?thesis
    by (simp add: filterCSWStore_def)
qed

text \<open>
  Only checked registries are searched: the title of a service whose checkbox is not
  checked is the fallback title even when the group knows the service.
\<close>

lemma unchecked_registry_ignored:
  "resolve_title (getChecked [\<lparr>inputValue = s, boxLabel = l, checked = False\<rparr>]) (JStr s)
     = ''Error retrieving title''"
  by (simp add: getChecked_def)

end
