(* ===== verification/Filter_Window.thy ===== *)
theory Filter_Window
  imports Tab_Panels
begin

text \<open>
  The handler of the Search button: it reads the form, walks the submitted values
  for the field \<open>cswServiceId\<close>, turns the value of that field into an array when it is
  not one, builds one result panel per selected service with \<open>_getTabPanels\<close>, fires
  \<open>filterselectcomplete\<close> with the panels, shows the selection window and closes the
  filter window.  The user interface around the handler (what exists, what the form
  holds, what has happened so far) is an explicit state.  The lemmas reduce the two
  nested loops to one run of \<open>_getTabPanels\<close> over the selected services
  (\<open>handler_mapM\<close>), from which the behaviour on every branch follows, and show that
  the handler keeps the trace well-formed (\<open>trace_wf\<close>), that the loop over the form
  values preserves their types, and how many panels and parameters it builds.
\<close>

section \<open>The state of the user interface\<close>

record selection_window =
  sw_title :: string
  resultpanels :: "tab_panel list"

text \<open>What the handler does to the world outside, in the order it does it.\<close>

datatype effect =
    FireEvent string "tab_panel list"
  | ShowWindow selection_window
  | CloseWindow

text \<open>
  \<open>components\<close> is what \<open>Ext.getCmp\<close> finds; \<open>form_valid\<close> and \<open>form_values\<close> are what
  \<open>panel.getForm().isValid()\<close> and \<open>panel.getForm().getValues(...)\<close> return; \<open>is_open\<close> says
  whether the filter window is still there; \<open>effects\<close> is the trace of what the handler
  has done.
\<close>

record ui_state =
  components :: component_manager
  form_valid :: bool
  form_values :: jsobj
  is_open :: bool
  effects :: "effect list"

section \<open>The handler\<close>

text \<open>
  Lines 36 to 38: a value that is not an array is replaced, in the object, by the
  array holding it.
\<close>

definition coerce_service_ids :: "jsobj \<Rightarrow> string \<Rightarrow> jsobj" where
  "coerce_service_ids additionalParams key =
     (if \<not> instanceof_Array (obj_get additionalParams key)
      then obj_set additionalParams key (JArr [obj_get additionalParams key])
      else additionalParams)"

text \<open>
  Lines 39 to 42: the counting loop over the array, pushing one panel per element.
  The test of the loop reads \<open>additionalParams[additionalParamKey].length\<close> at every
  iteration, which raises when the value is \<open>undefined\<close> or \<open>null\<close>.  A raise of the test or
  of \<open>_getTabPanels\<close> leaves the loop and the handler.
\<close>

function push_panels ::
  "component_manager \<Rightarrow> jsobj \<Rightarrow> string \<Rightarrow> nat \<Rightarrow> tab_panel list \<Rightarrow> tab_panel list result" where
  "push_panels cm additionalParams key j filteredResultPanels =
     (if nullish (obj_get additionalParams key)
      then Inl TypeError
      else if j < length (array_elems (obj_get additionalParams key))
      then res_bind
             (getTabPanels cm (Some additionalParams)
                (array_elems (obj_get additionalParams key) ! j))
             (\<lambda>panel. push_panels cm additionalParams key (Suc j) (filteredResultPanels @ [panel]))
      else Inr filteredResultPanels)"
  by pat_completeness auto
termination
  by (relation "measure (\<lambda>(cm, ps, key, j, acc). length (array_elems (obj_get ps key)) - j)") auto

declare push_panels.simps [simp del]

text \<open>Lines 35 to 43: the body of the loop over the keys of the form values.\<close>

definition param_step ::
  "component_manager \<Rightarrow> string \<Rightarrow> jsobj \<times> tab_panel list \<Rightarrow> (jsobj \<times> tab_panel list) result" where
  "param_step cm additionalParamKey = (\<lambda>(additionalParams, filteredResultPanels).
     if additionalParamKey = cswServiceId
     then let additionalParams = coerce_service_ids additionalParams additionalParamKey
          in res_bind (push_panels cm additionalParams additionalParamKey 0 filteredResultPanels)
               (\<lambda>filteredResultPanels. Inr (additionalParams, filteredResultPanels))
     else Inr (additionalParams, filteredResultPanels))"

text \<open>
  Lines 33 to 44: the loop over the keys the object has when the loop starts, from
  an empty array of panels.
\<close>

definition collect_panels ::
  "component_manager \<Rightarrow> jsobj \<Rightarrow> (jsobj \<times> tab_panel list) result" where
  "collect_panels cm additionalParams =
     for_each (param_step cm) (own_keys additionalParams) (additionalParams, [])"

text \<open>
  Lines 27 to 56.  An invalid form: nothing happens.  A valid form: the panels are
  collected; then the event, the selection window and the close, in this order.  A
  raise while collecting leaves the handler before any of the three.
\<close>

definition handler :: "ui_state \<Rightarrow> ui_state result" where
  "handler s =
     (if form_valid s
      then res_bind (collect_panels (components s) (form_values s))
             (\<lambda>(additionalParams, filteredResultPanels).
                Inr (s\<lparr> effects := effects s @
                           [FireEvent ''filterselectcomplete'' filteredResultPanels,
                            ShowWindow \<lparr> sw_title = ''CSW Record Selection'',
                                         resultpanels = filteredResultPanels \<rparr>,
                            CloseWindow],
                         is_open := False \<rparr>))
      else Inr s)"

section \<open>The reference definitions\<close>

text \<open>
  The selected services: the value of the field \<open>cswServiceId\<close> read as a sequence,
  one element for a scalar; none when the form has no such field.
\<close>

fun normalise_ids :: "jsval \<Rightarrow> jsval list" where
  "normalise_ids (JArr xs) = xs"
| "normalise_ids v = [v]"

definition selected_ids :: "jsobj \<Rightarrow> jsval list" where
  "selected_ids obj =
     (if cswServiceId \<in> set (own_keys obj) then normalise_ids (obj_get obj cswServiceId) else [])"

text \<open>The panel of one service, given the checkboxes of the registry group.\<close>

definition panel_for :: "checkbox list \<Rightarrow> jsobj \<Rightarrow> jsval \<Rightarrow> tab_panel" where
  "panel_for boxes obj sid =
     \<lparr> title = resolve_title (getChecked boxes) sid,
       xtype = ''cswrecordpagingpanel'',
       layout = ''fit'',
       store = filterCSWStore (map fst (kept_fields obj) @ [cswServiceId])
                              (map snd (kept_fields obj) @ [sid]) \<rparr>"

text \<open>What a successful submission appends to the trace.\<close>

definition submission :: "tab_panel list \<Rightarrow> effect list" where
  "submission panels =
     [FireEvent ''filterselectcomplete'' panels,
      ShowWindow \<lparr> sw_title = ''CSW Record Selection'', resultpanels = panels \<rparr>,
      CloseWindow]"

text \<open>
  The panels an effect carries, and the invariant of a trace: every panel in it is
  well-formed.
\<close>

fun effect_panels :: "effect \<Rightarrow> tab_panel list" where
  "effect_panels (FireEvent ev panels) = panels"
| "effect_panels (ShowWindow sw) = resultpanels sw"
| "effect_panels CloseWindow = []"

definition trace_wf :: "effect list \<Rightarrow> bool" where
  "trace_wf es \<longleftrightarrow> list_all (\<lambda>e. list_all panel_wf (effect_panels e)) es"

lemmas filter_window_eval [csw_eval] =
  coerce_service_ids_def push_panels.simps param_step_def collect_panels_def handler_def

lemmas filter_window_spec [csw_spec] = selected_ids_def panel_for_def submission_def trace_wf_def

section \<open>The coercion\<close>

lemma coerce_service_ids_get [simp]:
  "obj_get (coerce_service_ids obj k) k = JArr (normalise_ids (obj_get obj k))"
  by (cases "obj_get obj k") (simp_all add: coerce_service_ids_def)

lemma coerce_service_ids_other [simp]:
  "k' \<noteq> k \<Longrightarrow> obj_get (coerce_service_ids obj k) k' = obj_get obj k'"
  by (simp add: coerce_service_ids_def)

lemma coerce_service_ids_keys:
  "k \<in> set (own_keys obj) \<Longrightarrow> own_keys (coerce_service_ids obj k) = own_keys obj"
  by (simp add: coerce_service_ids_def own_keys_set_present)

lemma wf_obj_coerce: "wf_obj obj \<Longrightarrow> wf_obj (coerce_service_ids obj k)"
  by (simp add: coerce_service_ids_def wf_obj_set)

lemma coerce_service_ids_idem:
  "coerce_service_ids (coerce_service_ids obj k) k = coerce_service_ids obj k"
  by (simp add: coerce_service_ids_def [of "coerce_service_ids obj k"])

lemma kept_fields_coerce [simp]: "kept_fields (coerce_service_ids obj cswServiceId) = kept_fields obj"
  by (simp add: coerce_service_ids_def obj_set_def kept_fields_def kvp_keep_def filter_update_rejected)

text \<open>The coercion is the normalisation of a typed field to a sequence.\<close>

lemma form_typed_coerce:
  assumes "form_typed obj" and "k \<in> set (own_keys obj)"
  shows "form_typed (coerce_service_ids obj k)"
proof -
  from assms have "type_of (obj_get obj k) \<noteq> None"
    by (rule form_typed_get)
  then have "type_of (JArr [obj_get obj k]) \<noteq> None" if "\<not> instanceof_Array (obj_get obj k)"
    using that by (cases "obj_get obj k") simp_all
  with assms(1) show ?thesis
    by (simp add: coerce_service_ids_def form_typed_set)
qed

lemma type_of_normalise_ids:
  "type_of v \<noteq> None \<Longrightarrow> x \<in> set (normalise_ids v) \<Longrightarrow> type_of x = Some TScalar"
  by (cases v) (auto simp: list_all_iff type_of_Scalar_iff split: if_splits)

lemma type_of_coerced:
  assumes "form_typed obj" and "k \<in> set (own_keys obj)"
  shows "type_of (obj_get (coerce_service_ids obj k) k) = Some TSequence"
proof -
  from assms have "type_of (obj_get obj k) \<noteq> None"
    by (rule form_typed_get)
  then show ?thesis
    by (cases "obj_get obj k") (auto simp: list_all_iff split: if_splits)
qed

text \<open>
  The denormaliser skips the field the coercion writes, so the panels built from the
  coerced object are the panels of the submitted one.
\<close>

lemma kept_keys_coerce:
  assumes "cswServiceId \<in> set (own_keys obj)"
  shows "filter (\<lambda>k. kvp_keep (k, obj_get (coerce_service_ids obj cswServiceId) k))
           (own_keys (coerce_service_ids obj cswServiceId))
       = filter (\<lambda>k. kvp_keep (k, obj_get obj k)) (own_keys obj)"
  using assms by (auto simp: coerce_service_ids_keys kvp_keep_def intro!: filter_cong)

lemma kept_values_coerce:
  "map (obj_get (coerce_service_ids obj cswServiceId)) (filter (\<lambda>k. k \<noteq> cswServiceId \<and> P k) ks)
     = map (obj_get obj) (filter (\<lambda>k. k \<noteq> cswServiceId \<and> P k) ks)"
  by (induction ks) simp_all

lemma getTabPanels_coerce:
  assumes "cswServiceId \<in> set (own_keys obj)"
  shows "getTabPanels cm (Some (coerce_service_ids obj cswServiceId)) sid
       = getTabPanels cm (Some obj) sid"
proof -
  let ?c = "coerce_service_ids obj cswServiceId"
  have keep: "(\<lambda>k. kvp_keep (k, obj_get obj k)) = (\<lambda>k. k \<noteq> cswServiceId \<and> present (obj_get obj k))"
    by (auto simp: kvp_keep_def)
  have "denormaliseKvp [] [] (Some ?c) = denormaliseKvp [] [] (Some obj)"
    unfolding denormaliseKvp_keys kept_keys_coerce [OF assms]
    unfolding keep kept_values_coerce ..
  then show ?thesis
    by (simp add: getTabPanels_def)
qed

section \<open>The inner loop\<close>

text \<open>
  The loop raises at its first test when there is no \<open>length\<close> to read; the coercion
  in front of it has made the value an array, so in the handler it never does.
\<close>

lemma push_panels_nullish:
  "nullish (obj_get obj k) \<Longrightarrow> push_panels cm obj k j acc = Inl TypeError"
  by (subst push_panels.simps) simp

lemma push_panels_mapM:
  assumes "\<not> nullish (obj_get obj k)"
  shows "push_panels cm obj k j acc =
     res_bind (res_mapM (getTabPanels cm (Some obj)) (drop j (array_elems (obj_get obj k))))
       (\<lambda>panels. Inr (acc @ panels))"
  using assms
proof (induction cm obj k j acc rule: push_panels.induct)
  case (1 cm obj k j acc)
  show ?case
  proof (cases "j < length (array_elems (obj_get obj k))")
    case True
    show ?thesis
    proof (cases "getTabPanels cm (Some obj) (array_elems (obj_get obj k) ! j)")
      case (Inl e)
      with True "1.prems" show ?thesis
        by (subst push_panels.simps) (simp add: drop_index_Cons)
    next
      case (Inr p)
      with True "1.prems" "1.IH" [OF "1.prems" True Inr "1.prems"] show ?thesis
        by (subst push_panels.simps) (simp add: drop_index_Cons res_bind_assoc)
    qed
  next
    case False
    with "1.prems" show ?thesis
      by (subst push_panels.simps) simp
  qed
qed

lemma getTabPanels_panel_for:
  assumes "cm ''registryTabCheckboxGroup'' = Some boxes" and "wf_obj obj"
  shows "getTabPanels cm (Some obj) sid = Inr (panel_for boxes obj sid)"
  using assms by (simp add: getTabPanels_keys panel_for_def kept_fields_keys kept_fields_values)

section \<open>The loop over the keys\<close>

lemma param_step_other:
  "k \<noteq> cswServiceId \<Longrightarrow> param_step cm k st = Inr st"
  by (cases st) (simp add: param_step_def)

lemma param_step_service_id:
  "param_step cm cswServiceId (obj, acc) =
     res_bind (res_mapM (getTabPanels cm (Some (coerce_service_ids obj cswServiceId)))
                 (normalise_ids (obj_get obj cswServiceId)))
       (\<lambda>panels. Inr (coerce_service_ids obj cswServiceId, acc @ panels))"
  by (simp add: param_step_def Let_def push_panels_mapM res_bind_assoc)

text \<open>
  A form without the field yields no panel and touches nothing; a form with it runs
  the body once, at that field.
\<close>

lemma collect_panels_no_field:
  "cswServiceId \<notin> set (own_keys obj) \<Longrightarrow> collect_panels cm obj = Inr (obj, [])"
  unfolding collect_panels_def by (rule for_each_skip) (auto intro!: param_step_other)

lemma collect_panels_field:
  assumes "wf_obj obj" and "cswServiceId \<in> set (own_keys obj)"
  shows "collect_panels cm obj =
     res_bind (res_mapM (getTabPanels cm (Some obj)) (selected_ids obj))
       (\<lambda>panels. Inr (coerce_service_ids obj cswServiceId, panels))"
proof -
  have "collect_panels cm obj = param_step cm cswServiceId (obj, [])"
    unfolding collect_panels_def using assms
    by (intro for_each_single) (simp_all add: wf_obj_def param_step_other)
  with assms(2) show ?thesis
    by (simp add: param_step_service_id selected_ids_def getTabPanels_coerce cong: res_mapM_cong)
qed

text \<open>
  The handler uses the panels and drops the object: whatever is done with the panels,
  the loop over the keys is one run of \<open>_getTabPanels\<close> over the selected services.
\<close>

lemma collect_panels_bind:
  assumes "wf_obj obj"
  shows "res_bind (collect_panels cm obj) (\<lambda>(ps, panels). F panels)
       = res_bind (res_mapM (getTabPanels cm (Some obj)) (selected_ids obj)) F"
proof (cases "cswServiceId \<in> set (own_keys obj)")
  case True
  with assms show ?thesis
    by (simp add: collect_panels_field res_bind_assoc)
next
  case False
  then show ?thesis
    by (simp add: collect_panels_no_field selected_ids_def)
qed

section \<open>The handler as one step\<close>

lemma handler_mapM:
  assumes "form_valid s" and "wf_obj (form_values s)"
  shows "handler s =
     res_bind (res_mapM (getTabPanels (components s) (Some (form_values s)))
                 (selected_ids (form_values s)))
       (\<lambda>panels. Inr (s\<lparr>effects := effects s @ submission panels, is_open := False\<rparr>))"
  using assms(1) collect_panels_bind [OF assms(2), of "components s"
      "\<lambda>panels. Inr (s\<lparr>effects := effects s @ submission panels, is_open := False\<rparr>)"]
  by (simp add: handler_def submission_def)

lemma handler_InrE:
  assumes "handler s = Inr s'"
  obtains (invalid) "\<not> form_valid s" and "s' = s"
  | (submitted) panels where "form_valid s"
      and "s' = s\<lparr>effects := effects s @ submission panels, is_open := False\<rparr>"
  using assms
  by (auto simp: handler_def submission_def res_bind_eq_Inr_iff split: if_splits)

section \<open>The handler emits well-formed panels only\<close>

lemma trace_wf_Nil [simp]: "trace_wf []"
  by (simp add: trace_wf_def)

lemma trace_wf_append [simp]: "trace_wf (es @ es') \<longleftrightarrow> trace_wf es \<and> trace_wf es'"
  by (simp add: trace_wf_def)

lemma trace_wf_submission [simp]: "trace_wf (submission panels) \<longleftrightarrow> list_all panel_wf panels"
  by (simp add: trace_wf_def submission_def)

lemma param_step_wf:
  assumes "param_step cm k st = Inr st'" and "list_all panel_wf (snd st)"
  shows "list_all panel_wf (snd st')"
proof (cases "k = cswServiceId")
  case True
  obtain obj acc where st: "st = (obj, acc)"
    by (cases st)
  from assms(1) obtain panels where
    run: "res_mapM (getTabPanels cm (Some (coerce_service_ids obj cswServiceId)))
            (normalise_ids (obj_get obj cswServiceId)) = Inr panels"
    and st': "st' = (coerce_service_ids obj cswServiceId, acc @ panels)"
    by (auto simp: True st param_step_service_id res_bind_eq_Inr_iff)
  from run have "list_all panel_wf panels"
    by (rule res_mapM_list_all) (rule getTabPanels_wf)
  with assms(2) show ?thesis
    by (simp add: st st')
next
  case False
  with assms show ?thesis
    by (simp add: param_step_other)
qed

lemma collect_panels_wf:
  assumes "collect_panels cm obj = Inr (obj', panels)"
  shows "list_all panel_wf panels"
proof -
  have "list_all panel_wf (snd (obj', panels))"
    using assms unfolding collect_panels_def
    by (rule for_each_invariant) (simp_all add: param_step_wf)
  then show ?thesis
    by simp
qed

lemma handler_trace_wf:
  assumes "handler s = Inr s'" and "trace_wf (effects s)"
  shows "trace_wf (effects s')"
  using assms
  by (auto simp: handler_def res_bind_eq_Inr_iff submission_def [symmetric]
      dest: collect_panels_wf split: if_splits)

text \<open>
  C2.  A valid submission, with the registry group in place: the handler returns
  normally; it has appended to the trace the event \<open>filterselectcomplete\<close>, the showing
  of the selection window and the close, in this order, the first two carrying one
  panel per selected service, in selection order, each the panel of that service; and
  the filter window is closed.
\<close>

theorem handler_submits:
  assumes "form_valid s" and "wf_obj (form_values s)"
    and "components s ''registryTabCheckboxGroup'' = Some boxes"
  shows "handler s =
     Inr (s\<lparr>effects := effects s @
               submission (map (panel_for boxes (form_values s)) (selected_ids (form_values s))),
            is_open := False\<rparr>)"
proof -
  have "res_mapM (getTabPanels (components s) (Some (form_values s))) (selected_ids (form_values s))
      = Inr (map (panel_for boxes (form_values s)) (selected_ids (form_values s)))"
    by (rule res_mapM_total)
      (rule getTabPanels_panel_for [where cm = "components s", OF assms(3,2)])
  with assms(1,2) show ?thesis
    by (simp add: handler_mapM)
qed

theorem handler_submits_witness:
  "handler \<lparr> components = [''registryTabCheckboxGroup'' \<mapsto>
                 [\<lparr>inputValue = ''srv1'', boxLabel = ''Registry One'', checked = True\<rparr>]],
             form_valid = True,
             form_values = [(''keyword'', JStr []),
                            (''cswServiceId'', JArr [JStr ''srv1'', JStr ''srv2''])],
             is_open = True, effects = [] \<rparr>
   = Inr \<lparr> components = [''registryTabCheckboxGroup'' \<mapsto>
                 [\<lparr>inputValue = ''srv1'', boxLabel = ''Registry One'', checked = True\<rparr>]],
           form_valid = True,
           form_values = [(''keyword'', JStr []),
                          (''cswServiceId'', JArr [JStr ''srv1'', JStr ''srv2''])],
           is_open = False,
           effects = submission
             [\<lparr> title = ''Registry One'', xtype = ''cswrecordpagingpanel'', layout = ''fit'',
                 store = filterCSWStore [''cswServiceId''] [JStr ''srv1''] \<rparr>,
              \<lparr> title = ''Error retrieving title'', xtype = ''cswrecordpagingpanel'',
                 layout = ''fit'',
                 store = filterCSWStore [''cswServiceId''] [JStr ''srv2''] \<rparr>] \<rparr>"
proof -
  let ?boxes = "[\<lparr>inputValue = ''srv1'', boxLabel = ''Registry One'', checked = True\<rparr>]"
  let ?s = "\<lparr> components = [''registryTabCheckboxGroup'' \<mapsto> ?boxes], form_valid = True,
      form_values = [(''keyword'', JStr []), (''cswServiceId'', JArr [JStr ''srv1'', JStr ''srv2''])],
      is_open = True, effects = [] \<rparr>"
  have valid: "form_valid ?s" and wf: "wf_obj (form_values ?s)"
    and group: "components ?s ''registryTabCheckboxGroup'' = Some ?boxes"
    by (simp_all add: csw_spec csw_eval)
  have run: "handler ?s = Inr (?s\<lparr> is_open := False, effects := submission
      [\<lparr> title = ''Registry One'', xtype = ''cswrecordpagingpanel'', layout = ''fit'',
         store = filterCSWStore [''cswServiceId''] [JStr ''srv1''] \<rparr>,
       \<lparr> title = ''Error retrieving title'', xtype = ''cswrecordpagingpanel'', layout = ''fit'',
         store = filterCSWStore [''cswServiceId''] [JStr ''srv2''] \<rparr>] \<rparr>)"
    by (simp add: csw_eval submission_def)
  from handler_submits [where s = ?s, OF valid wf group] run show ?thesis
    by simp
qed

text \<open>
  C30.  An invalid form: the handler returns and nothing has happened; no panel is
  built, no event fired, the window stays as it is.
\<close>

theorem handler_invalid:
  assumes "\<not> form_valid s"
  shows "handler s = Inr s"
  using assms by (simp add: handler_def)

theorem handler_invalid_witness:
  "\<not> form_valid \<lparr> components = Map.empty, form_valid = False,
        form_values = [(''cswServiceId'', JStr ''srv1'')], is_open = True, effects = [] \<rparr>
   \<and> handler \<lparr> components = Map.empty, form_valid = False,
        form_values = [(''cswServiceId'', JStr ''srv1'')], is_open = True, effects = [] \<rparr>
     = Inr \<lparr> components = Map.empty, form_valid = False,
        form_values = [(''cswServiceId'', JStr ''srv1'')], is_open = True, effects = [] \<rparr>"
proof -
  let ?s = "\<lparr> components = (Map.empty :: component_manager), form_valid = False,
        form_values = [(''cswServiceId'', JStr ''srv1'')], is_open = True, effects = [] \<rparr>"
  have invalid: "\<not> form_valid ?s"
    by simp
  have run: "handler ?s = Inr ?s"
    by (simp add: csw_eval)
  from handler_invalid [OF invalid] invalid run show ?thesis
    by simp
qed

text \<open>
  C9.  A valid submission that selects at least one service while the registry group
  does not exist raises a TypeError out of the handler: no event is fired, no window
  shown, the filter window is not closed.
\<close>

theorem handler_raises:
  assumes "form_valid s" and "wf_obj (form_values s)"
    and "components s ''registryTabCheckboxGroup'' = None"
    and "selected_ids (form_values s) \<noteq> []"
  shows "handler s = Inl TypeError"
proof -
  have "res_mapM (getTabPanels (components s) (Some (form_values s))) (selected_ids (form_values s))
      = Inl TypeError"
    using assms(4) by (intro res_mapM_raises getTabPanels_no_group assms(3))
  with assms(1,2) show ?thesis
    by (simp add: handler_mapM)
qed

theorem handler_raises_witness:
  "wf_obj [(''cswServiceId'', JStr ''srv1'')]
   \<and> selected_ids [(''cswServiceId'', JStr ''srv1'')] \<noteq> []
   \<and> handler \<lparr> components = Map.empty, form_valid = True,
        form_values = [(''cswServiceId'', JStr ''srv1'')], is_open = True, effects = [] \<rparr>
     = Inl TypeError"
proof -
  let ?s = "\<lparr> components = (Map.empty :: component_manager), form_valid = True,
        form_values = [(''cswServiceId'', JStr ''srv1'')], is_open = True, effects = [] \<rparr>"
  have valid: "form_valid ?s" and wf: "wf_obj (form_values ?s)"
    and group: "components ?s ''registryTabCheckboxGroup'' = None"
    and some: "selected_ids (form_values ?s) \<noteq> []"
    by (simp_all add: csw_spec csw_eval)
  have run: "handler ?s = Inl TypeError"
    by (simp add: csw_eval)
  from handler_raises [OF valid wf group some] wf some run show ?thesis
    by simp
qed

text \<open>
  C11.  The handler raises in one situation only.  For a well-formed object of form
  values, a press ends in a raise exactly when the form is valid, at least one service
  is selected and the registry group does not exist; in every other case it returns.
\<close>

theorem handler_raises_iff:
  assumes "wf_obj (form_values s)"
  shows "(\<exists>e. handler s = Inl e) \<longleftrightarrow>
           form_valid s \<and> components s ''registryTabCheckboxGroup'' = None
           \<and> selected_ids (form_values s) \<noteq> []"
proof (cases "form_valid s")
  case False
  then show ?thesis
    by (simp add: handler_def)
next
  case True
  let ?run = "res_mapM (getTabPanels (components s) (Some (form_values s)))
      (selected_ids (form_values s))"
  show ?thesis
  proof (cases "components s ''registryTabCheckboxGroup''")
    case None
    then have "?run = Inl TypeError" if "selected_ids (form_values s) \<noteq> []"
      using that by (intro res_mapM_raises getTabPanels_no_group)
    with True assms None show ?thesis
      by (cases "selected_ids (form_values s) = []") (simp_all add: handler_mapM)
  next
    case (Some boxes)
    then have "?run = Inr (map (panel_for boxes (form_values s)) (selected_ids (form_values s)))"
      by (intro res_mapM_total getTabPanels_panel_for [where cm = "components s"] assms)
    with True assms Some show ?thesis
      by (simp add: handler_mapM)
  qed
qed

theorem handler_raises_iff_witness:
  "wf_obj [(''cswServiceId'', JArr [JStr ''srv1'', JStr ''srv2''])]
   \<and> handler \<lparr> components = Map.empty, form_valid = True,
        form_values = [(''cswServiceId'', JArr [JStr ''srv1'', JStr ''srv2''])],
        is_open = True, effects = [] \<rparr> = Inl TypeError
   \<and> selected_ids [(''cswServiceId'', JArr [JStr ''srv1'', JStr ''srv2''])] \<noteq> []"
proof -
  let ?s = "\<lparr> components = (Map.empty :: component_manager), form_valid = True,
        form_values = [(''cswServiceId'', JArr [JStr ''srv1'', JStr ''srv2''])],
        is_open = True, effects = [] \<rparr>"
  have wf: "wf_obj (form_values ?s)"
    by (simp add: csw_spec csw_eval)
  have run: "handler ?s = Inl TypeError"
    by (simp add: csw_eval)
  from handler_raises_iff [OF wf] wf run show ?thesis
    by (simp add: csw_spec csw_eval)
qed

text \<open>
  C31.  An empty selection (no field \<open>cswServiceId\<close>, or an empty array in it) is not an
  error: the handler fires the event with no panel, shows the selection window with
  no panel and closes the filter window, whether the registry group exists or not.
\<close>

theorem handler_empty_selection:
  assumes "form_valid s" and "wf_obj (form_values s)" and "selected_ids (form_values s) = []"
  shows "handler s = Inr (s\<lparr>effects := effects s @ submission [], is_open := False\<rparr>)"
  using assms by (simp add: handler_mapM)

theorem handler_empty_selection_witness:
  "wf_obj [(''keyword'', JStr ''ice'')] \<and> selected_ids [(''keyword'', JStr ''ice'')] = []
   \<and> handler \<lparr> components = Map.empty, form_valid = True,
        form_values = [(''keyword'', JStr ''ice'')], is_open = True, effects = [] \<rparr>
     = Inr \<lparr> components = Map.empty, form_valid = True,
        form_values = [(''keyword'', JStr ''ice'')], is_open = False,
        effects = submission [] \<rparr>"
proof -
  let ?s = "\<lparr> components = (Map.empty :: component_manager), form_valid = True,
        form_values = [(''keyword'', JStr ''ice'')], is_open = True, effects = [] \<rparr>"
  have valid: "form_valid ?s" and wf: "wf_obj (form_values ?s)"
    and none: "selected_ids (form_values ?s) = []"
    by (simp_all add: csw_spec csw_eval)
  have run: "handler ?s = Inr (?s\<lparr>is_open := False, effects := submission []\<rparr>)"
    by (simp add: csw_eval submission_def)
  from handler_empty_selection [OF valid wf none] wf none run show ?thesis
    by simp
qed

text \<open>
  C8.  Whenever a valid submission returns, it has appended exactly one submission
  to the trace, and its panels are bound, one to one and in order, to the selected
  services: the last parameter value of the \<open>i\<close>-th panel is the \<open>i\<close>-th selected
  identifier.  Identifiers selected twice give two panels.
\<close>

theorem handler_panel_per_service:
  assumes "handler s = Inr s'" and "form_valid s" and "wf_obj (form_values s)"
  shows "\<exists>panels. effects s' = effects s @ submission panels
           \<and> map (\<lambda>p. last (panel_values p)) panels = selected_ids (form_values s)"
proof -
  from assms obtain panels where run: "res_mapM (getTabPanels (components s) (Some (form_values s)))
      (selected_ids (form_values s)) = Inr panels"
    and s': "s' = s\<lparr>effects := effects s @ submission panels, is_open := False\<rparr>"
    by (auto simp: handler_mapM res_bind_eq_Inr_iff)
  from run have "list_all2 (\<lambda>sid p. last (panel_values p) = sid) (selected_ids (form_values s)) panels"
    unfolding res_mapM_Inr_iff
    by (rule list_all2_mono) (auto elim!: getTabPanels_InrD simp: filterCSWStore_def)
  then have "map (\<lambda>p. last (panel_values p)) panels = selected_ids (form_values s)"
    by (induction rule: list_all2_induct) simp_all
  with s' show ?thesis
    by auto
qed

theorem handler_panel_per_service_witness:
  "handler \<lparr> components = [''registryTabCheckboxGroup'' \<mapsto> []], form_valid = True,
        form_values = [(''cswServiceId'', JArr [JStr ''a'', JStr ''b'', JStr ''a''])],
        is_open = True, effects = [] \<rparr>
     = Inr \<lparr> components = [''registryTabCheckboxGroup'' \<mapsto> []], form_valid = True,
        form_values = [(''cswServiceId'', JArr [JStr ''a'', JStr ''b'', JStr ''a''])],
        is_open = False,
        effects = submission (map (panel_for [] [(''cswServiceId'', JArr [JStr ''a'', JStr ''b'', JStr ''a''])])
                    [JStr ''a'', JStr ''b'', JStr ''a'']) \<rparr>
   \<and> (\<exists>panels. submission (map (panel_for [] [(''cswServiceId'', JArr [JStr ''a'', JStr ''b'', JStr ''a''])])
                    [JStr ''a'', JStr ''b'', JStr ''a'']) = submission panels
         \<and> map (\<lambda>p. last (panel_values p)) panels = [JStr ''a'', JStr ''b'', JStr ''a''])"
proof -
  let ?s = "\<lparr> components = [''registryTabCheckboxGroup'' \<mapsto> ([] :: checkbox list)], form_valid = True,
        form_values = [(''cswServiceId'', JArr [JStr ''a'', JStr ''b'', JStr ''a''])],
        is_open = True, effects = [] \<rparr>"
  have wf: "wf_obj (form_values ?s)" and valid: "form_valid ?s"
    by (simp_all add: csw_spec csw_eval)
  have run: "handler ?s = Inr (?s\<lparr>effects := effects ?s @ submission
      (map (panel_for [] (form_values ?s)) (selected_ids (form_values ?s))), is_open := False\<rparr>)"
    by (simp add: csw_eval csw_spec)
  from handler_panel_per_service [OF run valid wf] run show ?thesis
    by (simp add: selected_ids_def)
qed

text \<open>
  C33.  What the loop of the handler does to the object it reads: the field
  \<open>cswServiceId\<close>, when there is one, holds the array of the selected identifiers
  afterwards (a scalar has been wrapped); no other field is touched, no field is added
  or moved, and the fields the denormaliser keeps are the same.  The write is in the
  working copy only.
\<close>

theorem collect_panels_object:
  assumes "collect_panels cm obj = Inr (obj', panels)" and "wf_obj obj"
  shows "own_keys obj' = own_keys obj \<and> kept_fields obj' = kept_fields obj
       \<and> (\<forall>k. k \<noteq> cswServiceId \<longrightarrow> obj_get obj' k = obj_get obj k)
       \<and> (cswServiceId \<in> set (own_keys obj) \<longrightarrow> obj_get obj' cswServiceId = JArr (selected_ids obj))"
proof (cases "cswServiceId \<in> set (own_keys obj)")
  case True
  with assms have "obj' = coerce_service_ids obj cswServiceId"
    by (auto simp: collect_panels_field res_bind_eq_Inr_iff)
  with True show ?thesis
    by (simp add: coerce_service_ids_keys selected_ids_def)
next
  case False
  with assms show ?thesis
    by (simp add: collect_panels_no_field)
qed

theorem collect_panels_object_witness:
  "wf_obj [(''keyword'', JStr ''ice''), (''cswServiceId'', JStr ''srv1'')]
   \<and> collect_panels [''registryTabCheckboxGroup'' \<mapsto> []]
        [(''keyword'', JStr ''ice''), (''cswServiceId'', JStr ''srv1'')]
     = Inr ([(''keyword'', JStr ''ice''), (''cswServiceId'', JArr [JStr ''srv1''])],
            [panel_for [] [(''keyword'', JStr ''ice''), (''cswServiceId'', JStr ''srv1'')] (JStr ''srv1'')])
   \<and> own_keys [(''keyword'', JStr ''ice''), (''cswServiceId'', JArr [JStr ''srv1''])]
     = own_keys [(''keyword'', JStr ''ice''), (''cswServiceId'', JStr ''srv1'')]
   \<and> obj_get [(''keyword'', JStr ''ice''), (''cswServiceId'', JArr [JStr ''srv1''])] cswServiceId
     = JArr (selected_ids [(''keyword'', JStr ''ice''), (''cswServiceId'', JStr ''srv1'')])"
proof -
  let ?obj = "[(''keyword'', JStr ''ice''), (''cswServiceId'', JStr ''srv1'')]"
  let ?cm = "[''registryTabCheckboxGroup'' \<mapsto> ([] :: checkbox list)]"
  have wf: "wf_obj ?obj"
    by (simp add: csw_spec csw_eval)
  have run: "collect_panels ?cm ?obj
      = Inr ([(''keyword'', JStr ''ice''), (''cswServiceId'', JArr [JStr ''srv1''])],
             [panel_for [] ?obj (JStr ''srv1'')])"
    by (simp add: csw_eval csw_spec)
  from collect_panels_object [OF run wf] wf run show ?thesis
    by simp
qed

text \<open>
  The panels of a form that has the field: one run of \<open>_getTabPanels\<close> over the
  selected services, on the form as submitted.
\<close>

lemma normalise_ids_scalar: "\<not> instanceof_Array v \<Longrightarrow> normalise_ids v = [v]"
  by (cases v) simp_all

lemma collect_panels_cases:
  assumes "collect_panels cm obj = Inr (obj', panels)" and "wf_obj obj"
  obtains (no_field) "cswServiceId \<notin> set (own_keys obj)" and "obj' = obj" and "panels = []"
  | (field) "cswServiceId \<in> set (own_keys obj)" and "obj' = coerce_service_ids obj cswServiceId"
      and "res_mapM (getTabPanels cm (Some obj)) (selected_ids obj) = Inr panels"
proof (cases "cswServiceId \<in> set (own_keys obj)")
  case True
  from assms have "res_bind (res_mapM (getTabPanels cm (Some obj)) (selected_ids obj))
      (\<lambda>panels. Inr (coerce_service_ids obj cswServiceId, panels)) = Inr (obj', panels)"
    by (simp add: collect_panels_field True)
  then have "obj' = coerce_service_ids obj cswServiceId"
    and "res_mapM (getTabPanels cm (Some obj)) (selected_ids obj) = Inr panels"
    by (auto simp: res_bind_eq_Inr_iff)
  with True show thesis
    by (rule field)
next
  case False
  with assms have "obj' = obj" and "panels = []"
    by (simp_all add: collect_panels_no_field)
  with False show thesis
    by (rule no_field)
qed

text \<open>
  C13.  Types are preserved.  When every form value is a string or an array of strings,
  so is every field of the working copy after the loop, the field \<open>cswServiceId\<close> is
  an array of strings, and every panel is well-typed: its parameter values are form
  values and its service identifier is a string, so that the strict comparison of the
  title loop compares strings.
\<close>

theorem collect_panels_typed:
  assumes "collect_panels cm obj = Inr (obj', panels)" and "wf_obj obj" and "form_typed obj"
  shows "form_typed obj' \<and> list_all panel_typed panels
       \<and> (cswServiceId \<in> set (own_keys obj) \<longrightarrow>
            type_of (obj_get obj' cswServiceId) = Some TSequence)"
  using assms(1,2)
proof (cases rule: collect_panels_cases)
  case no_field
  with assms(3) show ?thesis
    by simp
next
  case field
  from assms(3) field(1) have "type_of (obj_get obj cswServiceId) \<noteq> None"
    by (rule form_typed_get)
  then have "type_of sid = Some TScalar" if "sid \<in> set (selected_ids obj)" for sid
    using that field(1) by (intro type_of_normalise_ids) (simp_all add: selected_ids_def)
  then have "list_all panel_typed panels"
    by (intro res_mapM_list_all [OF field(3)]) (rule getTabPanels_typed [OF _ assms(3)])
  moreover have "form_typed obj'"
    unfolding field(2) using assms(3) field(1) by (rule form_typed_coerce)
  moreover have "type_of (obj_get obj' cswServiceId) = Some TSequence"
    unfolding field(2) using assms(3) field(1) by (rule type_of_coerced)
  ultimately show ?thesis
    by simp
qed

theorem collect_panels_typed_witness:
  "wf_obj [(''bbox'', JArr [JStr ''1'', JStr ''2'']), (''cswServiceId'', JStr ''srv1'')]
   \<and> form_typed [(''bbox'', JArr [JStr ''1'', JStr ''2'']), (''cswServiceId'', JStr ''srv1'')]
   \<and> collect_panels [''registryTabCheckboxGroup'' \<mapsto> []]
        [(''bbox'', JArr [JStr ''1'', JStr ''2'']), (''cswServiceId'', JStr ''srv1'')]
     = Inr ([(''bbox'', JArr [JStr ''1'', JStr ''2'']), (''cswServiceId'', JArr [JStr ''srv1''])],
            [panel_for [] [(''bbox'', JArr [JStr ''1'', JStr ''2'']), (''cswServiceId'', JStr ''srv1'')]
               (JStr ''srv1'')])
   \<and> form_typed [(''bbox'', JArr [JStr ''1'', JStr ''2'']), (''cswServiceId'', JArr [JStr ''srv1''])]
   \<and> panel_typed (panel_for [] [(''bbox'', JArr [JStr ''1'', JStr ''2'']),
        (''cswServiceId'', JStr ''srv1'')] (JStr ''srv1''))"
proof -
  let ?obj = "[(''bbox'', JArr [JStr ''1'', JStr ''2'']), (''cswServiceId'', JStr ''srv1'')]"
  let ?cm = "[''registryTabCheckboxGroup'' \<mapsto> ([] :: checkbox list)]"
  have wf: "wf_obj ?obj" and typed: "form_typed ?obj"
    by (simp_all add: csw_spec csw_eval)
  have run: "collect_panels ?cm ?obj
      = Inr ([(''bbox'', JArr [JStr ''1'', JStr ''2'']), (''cswServiceId'', JArr [JStr ''srv1''])],
             [panel_for [] ?obj (JStr ''srv1'')])"
    by (simp add: csw_eval csw_spec)
  from collect_panels_typed [OF run wf typed] wf typed run show ?thesis
    by simp
qed

text \<open>
  C24.  Bounds.  The loop builds exactly as many panels as services are selected:
  exactly one when the field \<open>cswServiceId\<close> is there and is not an array, whatever it
  holds, the empty string included.  No panel has more parameters than the form has
  fields: the parameters of a panel are at least the service identifier and at most
  one per field, the field \<open>cswServiceId\<close> giving its place to the identifier of the
  panel.
\<close>

theorem collect_panels_bounds:
  assumes "collect_panels cm obj = Inr (obj', panels)" and "wf_obj obj"
  shows "length panels = length (selected_ids obj)
       \<and> (cswServiceId \<in> set (own_keys obj) \<and> \<not> instanceof_Array (obj_get obj cswServiceId)
            \<longrightarrow> length panels = 1)
       \<and> (\<forall>p \<in> set panels. 1 \<le> length (panel_keys p) \<and> length (panel_keys p) \<le> length obj
              \<and> length (panel_values p) = length (panel_keys p))"
  using assms
proof (cases rule: collect_panels_cases)
  case no_field
  then show ?thesis
    by (simp add: selected_ids_def)
next
  case field
  let ?kept = "filter (\<lambda>k. kvp_keep (k, obj_get obj k)) (own_keys obj)"
  from field(1) have "length ?kept < length (own_keys obj)"
    by (rule length_filter_less) (simp add: kvp_keep_def)
  then have size: "length ?kept + 1 \<le> length obj"
    by (simp add: own_keys_def)
  have "list_all (\<lambda>p. panel_keys p = ?kept @ [cswServiceId]
      \<and> length (panel_values p) = length (panel_keys p)) panels"
    by (rule res_mapM_list_all [OF field(3)]) (simp add: getTabPanels_params)
  with size res_mapM_length [OF field(3)] show ?thesis
    by (auto simp: list_all_iff selected_ids_def normalise_ids_scalar)
qed

theorem collect_panels_bounds_witness:
  "wf_obj [(''keyword'', JStr ''ice''), (''cswServiceId'', JArr [JStr ''a'', JStr ''b''])]
   \<and> collect_panels [''registryTabCheckboxGroup'' \<mapsto> []]
        [(''keyword'', JStr ''ice''), (''cswServiceId'', JArr [JStr ''a'', JStr ''b''])]
     = Inr ([(''keyword'', JStr ''ice''), (''cswServiceId'', JArr [JStr ''a'', JStr ''b''])],
            map (panel_for [] [(''keyword'', JStr ''ice''), (''cswServiceId'', JArr [JStr ''a'', JStr ''b''])])
              [JStr ''a'', JStr ''b''])
   \<and> length (selected_ids [(''keyword'', JStr ''ice''), (''cswServiceId'', JArr [JStr ''a'', JStr ''b''])])
     = 2
   \<and> length (panel_keys (panel_for [] [(''keyword'', JStr ''ice''),
        (''cswServiceId'', JArr [JStr ''a'', JStr ''b''])] (JStr ''a''))) = 2
   \<and> wf_obj [(''cswServiceId'', JStr [])]
   \<and> collect_panels [''registryTabCheckboxGroup'' \<mapsto> []] [(''cswServiceId'', JStr [])]
     = Inr ([(''cswServiceId'', JArr [JStr []])], [panel_for [] [(''cswServiceId'', JStr [])] (JStr [])])"
proof -
  let ?obj = "[(''keyword'', JStr ''ice''), (''cswServiceId'', JArr [JStr ''a'', JStr ''b''])]"
  let ?cm = "[''registryTabCheckboxGroup'' \<mapsto> ([] :: checkbox list)]"
  have wf: "wf_obj ?obj"
    by (simp add: csw_spec csw_eval)
  have run: "collect_panels ?cm ?obj = Inr (?obj, map (panel_for [] ?obj) [JStr ''a'', JStr ''b''])"
    by (simp add: csw_eval csw_spec)
  have wf_empty: "wf_obj [(''cswServiceId'', JStr [])]"
    by (simp add: csw_spec csw_eval)
  have run_empty: "collect_panels ?cm [(''cswServiceId'', JStr [])]
      = Inr ([(''cswServiceId'', JArr [JStr []])], [panel_for [] [(''cswServiceId'', JStr [])] (JStr [])])"
    by (simp add: csw_eval csw_spec)
  from collect_panels_bounds [OF run wf] collect_panels_bounds [OF run_empty wf_empty]
    wf run wf_empty run_empty show ?thesis
    by (simp add: csw_spec csw_eval)
qed

text \<open>
  C32.  The handler writes nothing but the trace and the open flag: the components,
  the validity and the values of the form are the same after it, and the trace has
  only grown.  The coercion of the field \<open>cswServiceId\<close> is done on the object the form
  handed out, not on the form.
\<close>

theorem handler_frame:
  assumes "handler s = Inr s'"
  shows "components s' = components s \<and> form_valid s' = form_valid s
       \<and> form_values s' = form_values s \<and> prefix (effects s) (effects s')"
  using assms by (rule handler_InrE) simp_all

theorem handler_frame_witness:
  "handler \<lparr> components = Map.empty, form_valid = True, form_values = [(''cswServiceId'', JArr [])],
        is_open = True, effects = [CloseWindow] \<rparr>
     = Inr \<lparr> components = Map.empty, form_valid = True, form_values = [(''cswServiceId'', JArr [])],
        is_open = False, effects = CloseWindow # submission [] \<rparr>
   \<and> prefix [CloseWindow] (CloseWindow # submission [])"
proof -
  let ?s = "\<lparr> components = (Map.empty :: component_manager), form_valid = True,
        form_values = [(''cswServiceId'', JArr [])], is_open = True, effects = [CloseWindow] \<rparr>"
  have run: "handler ?s = Inr (?s\<lparr>effects := CloseWindow # submission [], is_open := False\<rparr>)"
    by (simp add: csw_eval submission_def)
  from handler_frame [OF run] run show ?thesis
    by simp
qed

end
