(* ===== verification/Window_Config.thy ===== *)
theory Window_Config
  imports Filter_Window
begin

text \<open>
  The constructor of the window (lines 6 to 63 of \<^verbatim>\<open>CSWFilterWindow.js\<close>): it declares
  the event, creates the form panel, writes the fixed configuration over the
  configuration of the caller with \<open>Ext.apply\<close>, and hands the result to the constructor
  of \<open>Ext.window.Window\<close>.  The configuration holds the Search button, whose handler
  is the function \<open>handler\<close> of the theory \<open>Filter_Window\<close>.
\<close>

section \<open>Configuration objects\<close>

text \<open>Lines 9 to 11: the form panel is created with a name and nothing else.\<close>

record form_panel =
  fp_name :: string

text \<open>
  Lines 22 to 57: a button of the button bar.  \<open>scope : this\<close> makes the window the
  receiver of the handler, so that \<open>this._getTabPanels\<close> in it is the method of the
  window.  The handler is a function of the state of the user interface.
\<close>

datatype scope_ref = ThisWindow | ButtonItself

record button =
  btn_xtype :: string
  btn_text :: string
  btn_scope :: scope_ref
  btn_iconCls :: string
  btn_handler :: "ui_state \<Rightarrow> ui_state result"

text \<open>
  The values of a configuration object: the kinds the constructor writes, and any
  other value the caller may have put there.
\<close>

datatype cfg_value =
    CStr string
  | CBool bool
  | CNum int
  | CItems "form_panel list"
  | CButtons "button list"
  | COther jsval

type_synonym cfg = "(string \<times> cfg_value) list"

section \<open>\<open>Ext.apply\<close>\<close>

text \<open>
  \<open>Ext.apply(object, config)\<close> copies every property of \<open>config\<close> onto \<open>object\<close>, in the
  order \<open>config\<close> enumerates them, and returns \<open>object\<close>; it does nothing when \<open>object\<close>
  is \<open>undefined\<close> or \<open>null\<close> (\<open>None\<close>).
\<close>

definition ext_apply :: "('k \<times> 'v) list option \<Rightarrow> ('k \<times> 'v) list \<Rightarrow> ('k \<times> 'v) list option" where
  "ext_apply object config = map_option (fold (\<lambda>(k, v). AList.update k v) config) object"

section \<open>The constructor\<close>

text \<open>Lines 22 to 57: the Search button.\<close>

definition search_button :: button where
  "search_button =
     \<lparr> btn_xtype = ''button'',
       btn_text = ''Search'',
       btn_scope = ThisWindow,
       btn_iconCls = ''add'',
       btn_handler = handler \<rparr>"

text \<open>Lines 15 to 58: the object the constructor writes over the configuration.\<close>

definition window_config :: "form_panel \<Rightarrow> cfg" where
  "window_config cswFilterFormPanel =
     [(''title'', CStr ''Enter Parameters''),
      (''layout'', CStr ''fit''),
      (''modal'', CBool True),
      (''width'', CNum 500),
      (''height'', CNum 500),
      (''items'', CItems [cswFilterFormPanel]),
      (''buttons'', CButtons [search_button])]"

text \<open>
  The window: the events it has declared and the configuration its base class was
  constructed with (\<open>None\<close>: the constructor was called without one).
\<close>

record filter_window =
  fw_events :: "string list"
  fw_config :: "cfg option"

definition addEvents :: "string list \<Rightarrow> string \<Rightarrow> string list" where
  "addEvents evs name = (if name \<in> set evs then evs else evs @ [name])"

definition constructor :: "cfg option \<Rightarrow> filter_window" where
  "constructor cfg =
     (let events = addEvents [] ''filterselectcomplete'';
          cswFilterFormPanel = \<lparr> fp_name = ''test'' \<rparr>;
          cfg = ext_apply cfg (window_config cswFilterFormPanel)
      in \<lparr> fw_events = events, fw_config = cfg \<rparr>)"

section \<open>Reading the window\<close>

text \<open>
  What the base class reads from its configuration: a property, and the button bar
  (no button when there is no configuration or no array of buttons in it).
\<close>

definition cfg_get :: "filter_window \<Rightarrow> string \<Rightarrow> cfg_value option" where
  "cfg_get w k = (case fw_config w of None \<Rightarrow> None | Some c \<Rightarrow> map_of c k)"

definition buttons_of :: "filter_window \<Rightarrow> button list" where
  "buttons_of w = (case cfg_get w ''buttons'' of Some (CButtons bs) \<Rightarrow> bs | _ \<Rightarrow> [])"

definition items_of :: "filter_window \<Rightarrow> form_panel list" where
  "items_of w = (case cfg_get w ''items'' of Some (CItems ps) \<Rightarrow> ps | _ \<Rightarrow> [])"

text \<open>The names the constructor writes.\<close>

definition fixed_keys :: "string list" where
  "fixed_keys = [''title'', ''layout'', ''modal'', ''width'', ''height'', ''items'', ''buttons'']"

lemmas window_config_eval [csw_eval] =
  ext_apply_def search_button_def window_config_def addEvents_def constructor_def
  cfg_get_def buttons_of_def items_of_def

lemmas window_config_spec [csw_spec] = fixed_keys_def

section \<open>\<open>Ext.apply\<close>: what it writes and what it keeps\<close>

lemma ext_apply_None [simp]: "ext_apply None config = None"
  by (simp add: ext_apply_def)

lemma ext_apply_Some:
  "ext_apply (Some obj) config = Some (fold (\<lambda>(k, v). AList.update k v) config obj)"
  by (simp add: ext_apply_def)

lemma ext_apply_map_of:
  assumes "distinct (map fst config)" and "ext_apply (Some obj) config = Some obj'"
  shows "map_of obj' = map_of obj ++ map_of config"
  using assms by (auto simp: ext_apply_Some map_of_fold_update map_of_rev_distinct)

lemma window_config_keys [simp]: "map fst (window_config fp) = fixed_keys"
  by (simp add: window_config_def fixed_keys_def)

lemma window_config_dom [simp]: "fst ` set (window_config fp) = set fixed_keys"
  using window_config_keys [of fp] by (metis set_map)

lemma distinct_fixed_keys [simp]: "distinct fixed_keys"
  by (simp add: fixed_keys_def)

text \<open>The configuration of a window constructed with one, in one equation.\<close>

lemma constructor_Some:
  "constructor (Some cfg) =
     \<lparr> fw_events = [''filterselectcomplete''],
       fw_config = Some (fold (\<lambda>(k, v). AList.update k v) (window_config \<lparr>fp_name = ''test''\<rparr>) cfg) \<rparr>"
  by (simp add: constructor_def addEvents_def ext_apply_Some)

lemma cfg_get_constructor:
  "cfg_get (constructor (Some cfg)) k
     = (if k \<in> set fixed_keys then map_of (window_config \<lparr>fp_name = ''test''\<rparr>) k else map_of cfg k)"
proof -
  have "map_of (window_config \<lparr>fp_name = ''test''\<rparr>) k = None" if "k \<notin> set fixed_keys"
    using that by (simp add: map_of_eq_None_iff)
  moreover have "map_of (window_config \<lparr>fp_name = ''test''\<rparr>) k \<noteq> None" if "k \<in> set fixed_keys"
    using that by (simp add: map_of_eq_None_iff)
  ultimately show ?thesis
    by (auto simp: cfg_get_def constructor_Some map_of_fold_update map_of_rev_distinct map_add_def
        split: option.splits)
qed

lemma btn_handler_search_button [simp]: "btn_handler search_button = handler"
  by (simp add: search_button_def)

lemma buttons_of_constructor [simp]: "buttons_of (constructor (Some cfg)) = [search_button]"
  by (simp add: buttons_of_def cfg_get_constructor) (simp add: fixed_keys_def window_config_def)

lemma buttons_of_no_config [simp]: "buttons_of (constructor None) = []"
  by (simp add: buttons_of_def cfg_get_def constructor_def)

lemma items_of_constructor [simp]: "items_of (constructor (Some cfg)) = [\<lparr>fp_name = ''test''\<rparr>]"
  by (simp add: items_of_def cfg_get_constructor) (simp add: fixed_keys_def window_config_def)

section \<open>The properties of the constructor\<close>

text \<open>
  C27.  Whatever configuration the caller passes, the window is titled
  \<open>Enter Parameters\<close>, laid out to fit, modal, 500 by 500, holds the one form panel
  named \<open>test\<close> and declares the event \<open>filterselectcomplete\<close>: the constructor
  overrides what the caller has set under these names.
\<close>

theorem constructor_fixed:
  "cfg_get (constructor (Some cfg)) ''title'' = Some (CStr ''Enter Parameters'')
   \<and> cfg_get (constructor (Some cfg)) ''layout'' = Some (CStr ''fit'')
   \<and> cfg_get (constructor (Some cfg)) ''modal'' = Some (CBool True)
   \<and> cfg_get (constructor (Some cfg)) ''width'' = Some (CNum 500)
   \<and> cfg_get (constructor (Some cfg)) ''height'' = Some (CNum 500)
   \<and> items_of (constructor (Some cfg)) = [\<lparr>fp_name = ''test''\<rparr>]
   \<and> fw_events (constructor (Some cfg)) = [''filterselectcomplete'']"
  by (simp add: cfg_get_constructor) (simp add: fixed_keys_def window_config_def constructor_Some)

text \<open>
  C26.  The button bar of a window constructed with a configuration is exactly the
  Search button, and pressing it runs the handler, with the window as receiver:
  buttons the caller has configured are replaced.
\<close>

theorem constructor_search_button:
  "\<exists>b. buttons_of (constructor (Some cfg)) = [b]
       \<and> btn_text b = ''Search'' \<and> btn_xtype b = ''button'' \<and> btn_iconCls b = ''add''
       \<and> btn_scope b = ThisWindow \<and> btn_handler b = handler"
  by (simp add: search_button_def)

text \<open>
  C28.  The constructor keeps what the caller has configured under any other name:
  a property that is not one of the seven the constructor writes is read back as the
  caller set it.
\<close>

theorem constructor_keeps_caller:
  assumes "k \<notin> set fixed_keys"
  shows "cfg_get (constructor (Some cfg)) k = map_of cfg k"
  using assms by (simp add: cfg_get_constructor)

theorem constructor_keeps_caller_witness:
  "''id'' \<notin> set fixed_keys
   \<and> cfg_get (constructor (Some [(''id'', CStr ''cswFilter''), (''title'', CStr ''Mine'')])) ''id''
     = Some (CStr ''cswFilter'')"
proof -
  have other: "''id'' \<notin> set fixed_keys"
    by (simp add: csw_spec)
  have run: "cfg_get (constructor (Some [(''id'', CStr ''cswFilter''), (''title'', CStr ''Mine'')])) ''id''
      = Some (CStr ''cswFilter'')"
    by (simp add: csw_eval)
  from constructor_keeps_caller [OF other, of "[(''id'', CStr ''cswFilter''), (''title'', CStr ''Mine'')]"]
    other run show ?thesis
    by simp
qed

text \<open>
  C34.  The handler fires only an event the constructor has declared: every event in
  the trace after a press was in the trace before it or is \<open>filterselectcomplete\<close>,
  which every constructed window declares.
\<close>

theorem handler_fires_declared_event:
  assumes "handler s = Inr s'" and "FireEvent ev panels \<in> set (effects s')"
  shows "FireEvent ev panels \<in> set (effects s) \<or> ev \<in> set (fw_events (constructor cfg))"
  using assms by (cases cfg) (auto elim!: handler_InrE simp: submission_def constructor_def addEvents_def)

theorem handler_fires_declared_event_witness:
  "handler \<lparr> components = [''registryTabCheckboxGroup'' \<mapsto> []], form_valid = True,
       form_values = [(''cswServiceId'', JStr ''srv1'')], is_open = True, effects = [] \<rparr>
     = Inr \<lparr> components = [''registryTabCheckboxGroup'' \<mapsto> []], form_valid = True,
       form_values = [(''cswServiceId'', JStr ''srv1'')], is_open = False,
       effects = submission [panel_for [] [(''cswServiceId'', JStr ''srv1'')] (JStr ''srv1'')] \<rparr>
   \<and> ''filterselectcomplete'' \<in> set (fw_events (constructor None))"
proof -
  let ?s = "\<lparr> components = [''registryTabCheckboxGroup'' \<mapsto> ([] :: checkbox list)], form_valid = True,
       form_values = [(''cswServiceId'', JStr ''srv1'')], is_open = True, effects = [] \<rparr>"
  let ?p = "panel_for [] [(''cswServiceId'', JStr ''srv1'')] (JStr ''srv1'')"
  have run: "handler ?s = Inr (?s\<lparr>is_open := False, effects := submission [?p]\<rparr>)"
    by (simp add: csw_eval csw_spec)
  have fired: "FireEvent ''filterselectcomplete'' [?p]
      \<in> set (effects (?s\<lparr>is_open := False, effects := submission [?p]\<rparr>))"
    by (simp add: submission_def)
  from handler_fires_declared_event [OF run fired, of None] run show ?thesis
    by simp
qed

end
