(* ===== verification/Window_Lifecycle.thy ===== *)
theory Window_Lifecycle
  imports Window_Config
begin

text \<open>
  The life of the window between \<open>show()\<close> and \<open>close()\<close> as a labelled transition
  system over the state of the user interface: the user edits the form, the component
  registry changes, a button of the window is pressed, the user dismisses the window
  with the close tool of its title bar.  A press runs the handler the constructor has
  put on the button (lines 22 to 57); a handler that raises leaves the state as it
  was, since it raises before its first effect.  The window has a close tool unless
  the configuration of the caller says otherwise, because the constructor writes no
  property \<open>closable\<close> (lines 15 to 22).  The relation \<open>step\<close> has
  an executable counterpart \<open>exec\<close>; traces are run by \<open>run\<close>.  The invariants of the
  reachable states are proved by rule induction for every window whose buttons run
  the handler (\<open>wired\<close>), which the constructor builds.
\<close>

section \<open>Actions, steps and traces\<close>

datatype action =
    Edit jsobj bool
  | SetComponent string "checkbox list option"
  | Press nat
  | Dismiss

text \<open>A window that has just been shown: open, nothing emitted yet.\<close>

definition initial :: "ui_state \<Rightarrow> bool" where
  "initial s \<longleftrightarrow> is_open s \<and> effects s = []"

text \<open>
  The base class \<open>Ext.window.Window\<close> (line 2) shows a close tool when its property
  \<open>closable\<close> is truthy, and the property is \<open>true\<close> when the configuration does not set
  it.
\<close>

fun cfg_truthy :: "cfg_value \<Rightarrow> bool" where
  "cfg_truthy (CStr s) = (s \<noteq> [])"
| "cfg_truthy (CBool b) = b"
| "cfg_truthy (CNum n) = (n \<noteq> 0)"
| "cfg_truthy (CItems ps) = True"
| "cfg_truthy (CButtons bs) = True"
| "cfg_truthy (COther v) = truthy v"

definition closable :: "filter_window \<Rightarrow> bool" where
  "closable w = (case cfg_get w ''closable'' of None \<Rightarrow> True | Some v \<Rightarrow> cfg_truthy v)"

text \<open>
  Nothing happens to a closed window.  \<open>Edit\<close> sets the values of the form and the
  answer of its validation; \<open>SetComponent\<close> registers or removes a component under a
  global identifier; \<open>Press i\<close> runs the handler of the \<open>i\<close>-th button of the button bar;
  \<open>Dismiss\<close> closes a window that has a close tool, and nothing is emitted.
\<close>

inductive step :: "filter_window \<Rightarrow> ui_state \<Rightarrow> action \<Rightarrow> ui_state \<Rightarrow> bool" for w where
  edit: "is_open s \<Longrightarrow> step w s (Edit vs ok) (s\<lparr>form_values := vs, form_valid := ok\<rparr>)"
| set_component:
    "is_open s \<Longrightarrow> step w s (SetComponent name c) (s\<lparr>components := (components s)(name := c)\<rparr>)"
| press_returns:
    "is_open s \<Longrightarrow> i < length (buttons_of w) \<Longrightarrow> btn_handler (buttons_of w ! i) s = Inr s'
       \<Longrightarrow> step w s (Press i) s'"
| press_raises:
    "is_open s \<Longrightarrow> i < length (buttons_of w) \<Longrightarrow> btn_handler (buttons_of w ! i) s = Inl e
       \<Longrightarrow> step w s (Press i) s"
| dismiss: "is_open s \<Longrightarrow> closable w \<Longrightarrow> step w s Dismiss (s\<lparr>is_open := False\<rparr>)"

fun exec :: "filter_window \<Rightarrow> action \<Rightarrow> ui_state \<Rightarrow> ui_state option" where
  "exec w (Edit vs ok) s =
     (if is_open s then Some (s\<lparr>form_values := vs, form_valid := ok\<rparr>) else None)"
| "exec w (SetComponent name c) s =
     (if is_open s then Some (s\<lparr>components := (components s)(name := c)\<rparr>) else None)"
| "exec w (Press i) s =
     (if is_open s \<and> i < length (buttons_of w)
      then Some (case btn_handler (buttons_of w ! i) s of Inr s' \<Rightarrow> s' | Inl e \<Rightarrow> s)
      else None)"
| "exec w Dismiss s =
     (if is_open s \<and> closable w then Some (s\<lparr>is_open := False\<rparr>) else None)"

inductive steps :: "filter_window \<Rightarrow> ui_state \<Rightarrow> action list \<Rightarrow> ui_state \<Rightarrow> bool" for w where
  nil: "steps w s [] s"
| cons: "step w s a s' \<Longrightarrow> steps w s' acts s'' \<Longrightarrow> steps w s (a # acts) s''"

fun run :: "filter_window \<Rightarrow> action list \<Rightarrow> ui_state \<Rightarrow> ui_state option" where
  "run w [] s = Some s"
| "run w (a # acts) s = (case exec w a s of None \<Rightarrow> None | Some s' \<Rightarrow> run w acts s')"

inductive reachable :: "filter_window \<Rightarrow> ui_state \<Rightarrow> bool" for w where
  start: "initial s \<Longrightarrow> reachable w s"
| after: "reachable w s \<Longrightarrow> step w s a s' \<Longrightarrow> reachable w s'"

section \<open>The invariants\<close>

text \<open>
  The panels of the event at the head of a trace, and the invariant of the life
  cycle: an open window has emitted nothing; a closed window has emitted nothing (it
  was dismissed) or exactly one submission.
\<close>

fun fired_panels :: "effect list \<Rightarrow> tab_panel list" where
  "fired_panels (FireEvent ev panels # es) = panels"
| "fired_panels es = []"

definition submitted_once :: "ui_state \<Rightarrow> bool" where
  "submitted_once s \<longleftrightarrow>
     (if is_open s then effects s = []
      else effects s = [] \<or> effects s = submission (fired_panels (effects s)))"

text \<open>Every button of the window runs the Search handler.\<close>

definition wired :: "filter_window \<Rightarrow> bool" where
  "wired w \<longleftrightarrow> (\<forall>b \<in> set (buttons_of w). btn_handler b = handler)"

lemmas lifecycle_eval [csw_eval] = initial_def closable_def

lemmas lifecycle_spec [csw_spec] = submitted_once_def

inductive_cases step_EditE [elim!]: "step w s (Edit vs ok) s'"

inductive_cases step_SetComponentE [elim!]: "step w s (SetComponent name c) s'"

inductive_cases step_PressE: "step w s (Press i) s'"

inductive_cases step_DismissE [elim!]: "step w s Dismiss s'"

inductive_simps steps_Nil [simp]: "steps w s [] s'"

inductive_simps steps_Cons [simp]: "steps w s (a # acts) s'"

section \<open>The relation and the function\<close>

lemma step_open: "step w s a s' \<Longrightarrow> is_open s"
  by (cases rule: step.cases) simp_all

lemma step_iff_exec: "step w s a s' \<longleftrightarrow> exec w a s = Some s'"
  by (cases a) (auto intro: step.intros elim: step_PressE split: sum.splits)

lemma steps_iff_run: "steps w s acts s' \<longleftrightarrow> run w acts s = Some s'"
  by (induction acts arbitrary: s) (auto simp: step_iff_exec split: option.splits)

lemma run_append:
  "run w (acts @ acts') s = (case run w acts s of None \<Rightarrow> None | Some s' \<Rightarrow> run w acts' s')"
  by (induction acts arbitrary: s) (simp_all split: option.splits)

lemma steps_snoc:
  "steps w s (acts @ [a]) s'' \<longleftrightarrow> (\<exists>s'. steps w s acts s' \<and> step w s' a s'')"
  by (auto simp: steps_iff_run step_iff_exec run_append split: option.splits)

lemma reachable_iff_steps: "reachable w s \<longleftrightarrow> (\<exists>s0 acts. initial s0 \<and> steps w s0 acts s)"
proof
  assume "reachable w s"
  then show "\<exists>s0 acts. initial s0 \<and> steps w s0 acts s"
  proof induction
    case (start s)
    then show ?case by (blast intro: steps.nil)
  next
    case (after s a s')
    then show ?case by (metis steps_snoc)
  qed
next
  assume "\<exists>s0 acts. initial s0 \<and> steps w s0 acts s"
  then obtain s0 acts where "initial s0" and "steps w s0 acts s"
    by blast
  then show "reachable w s"
    by (induction acts arbitrary: s rule: rev_induct)
      (auto simp: steps_snoc intro: reachable.intros)
qed

section \<open>Constructed windows\<close>

lemma wired_constructor [simp]: "wired (constructor cfg)"
  by (cases cfg) (simp_all add: wired_def search_button_def)

lemma exec_Press_constructor:
  "exec (constructor (Some cfg)) (Press 0) s =
     (if is_open s then Some (case handler s of Inr s' \<Rightarrow> s' | Inl e \<Rightarrow> s) else None)"
  by (simp add: search_button_def)

lemma exec_Press_no_config [simp]: "exec (constructor None) (Press i) s = None"
  by simp

text \<open>A press on a wired window is a run of the handler.\<close>

lemma step_PressD:
  assumes "step w s (Press i) s'" and "wired w"
  obtains (returns) "handler s = Inr s'" | (raises) e where "handler s = Inl e" and "s' = s"
  using assms by (auto simp: wired_def elim!: step_PressE)

section \<open>Steps preserve the invariants\<close>

lemma fired_panels_submission [simp]: "fired_panels (submission panels) = panels"
  by (simp add: submission_def)

lemma step_submitted_once:
  assumes "step w s a s'" and "wired w" and "submitted_once s"
  shows "submitted_once s'"
proof (cases a)
  case (Press i)
  from assms(1) have "is_open s"
    by (rule step_open)
  with assms(3) have "effects s = []"
    by (simp add: submitted_once_def)
  with assms Press show ?thesis
    by (auto elim!: step_PressD handler_InrE simp: submitted_once_def)
qed (use assms in \<open>auto simp: submitted_once_def\<close>)

lemma step_trace_wf:
  assumes "step w s a s'" and "wired w" and "trace_wf (effects s)"
  shows "trace_wf (effects s')"
  using assms by (cases a) (auto elim!: step_PressD intro: handler_trace_wf)

lemma reachable_submitted_once:
  "reachable w s \<Longrightarrow> wired w \<Longrightarrow> submitted_once s"
  by (induction rule: reachable.induct)
    (simp add: initial_def submitted_once_def, blast intro: step_submitted_once)

lemma reachable_trace_wf:
  "reachable w s \<Longrightarrow> wired w \<Longrightarrow> trace_wf (effects s)"
  by (induction rule: reachable.induct) (simp add: initial_def, blast intro: step_trace_wf)

text \<open>
  What closes a window that has emitted nothing: a press that submits, or the close
  tool.  A window without a close tool is closed by a submission only.
\<close>

lemma step_closes:
  assumes "step w s a s'" and "wired w" and "effects s = []" and "\<not> is_open s'"
  shows "(\<exists>i < length (buttons_of w). a = Press i
            \<and> effects s' = submission (fired_panels (effects s')))
       \<or> (a = Dismiss \<and> closable w \<and> effects s' = [])"
proof (cases a)
  case (Press i)
  with assms(1) have "i < length (buttons_of w)" and "is_open s"
    by (auto elim: step_PressE)
  with assms Press show ?thesis
    by (auto elim!: step_PressD handler_InrE)
qed (use assms in \<open>auto dest: step_open\<close>)

lemma reachable_unclosable:
  assumes "reachable w s" and "wired w" and "\<not> closable w" and "\<not> is_open s"
  shows "effects s = submission (fired_panels (effects s))"
  using assms(1,4)
proof (cases rule: reachable.cases)
  case (after s1 a)
  from after(1) assms(2) have "submitted_once s1"
    by (rule reachable_submitted_once)
  with after(2) have "effects s1 = []"
    by (auto dest: step_open simp: submitted_once_def)
  from step_closes [OF after(2) assms(2) this assms(4)] assms(3) show ?thesis
    by auto
qed (simp add: initial_def)

text \<open>A state reached by running a trace from a window just shown is reachable.\<close>

lemma reachable_run:
  "initial s0 \<Longrightarrow> run w acts s0 = Some s \<Longrightarrow> reachable w s"
  by (auto simp: reachable_iff_steps steps_iff_run)

lemma steps_closed:
  assumes "steps w s acts s'" and "\<not> is_open s"
  shows "acts = [] \<and> s' = s"
  using assms by (cases rule: steps.cases) (auto dest: step_open)

section \<open>The properties of the life cycle\<close>

text \<open>
  C10.  One submission per window.  After any sequence of edits, registry changes,
  presses and dismissals on a window just shown, the window is open and has emitted
  nothing, or it was closed by the press of the Search button as last action and the
  trace is exactly one submission (the event, the selection window, the close), or it
  was closed by the close tool as last action, which the configuration allowed, and
  nothing was emitted.
\<close>

theorem one_submission_per_window:
  assumes "initial s0" and "steps (constructor cfg) s0 acts s"
  shows "(is_open s \<and> effects s = [])
       \<or> (\<not> is_open s \<and> acts \<noteq> [] \<and> last acts = Press 0
            \<and> effects s = submission (fired_panels (effects s)))
       \<or> (\<not> is_open s \<and> acts \<noteq> [] \<and> last acts = Dismiss
            \<and> closable (constructor cfg) \<and> effects s = [])"
proof (cases "is_open s")
  case True
  from assms have "reachable (constructor cfg) s"
    by (auto simp: reachable_iff_steps)
  with True show ?thesis
    by (auto dest: reachable_submitted_once simp: submitted_once_def)
next
  case False
  with assms obtain acts' a where acts: "acts = acts' @ [a]"
    by (cases acts rule: rev_cases) (auto simp: initial_def)
  with assms(2) obtain s1 where before: "steps (constructor cfg) s0 acts' s1"
    and last: "step (constructor cfg) s1 a s"
    by (auto simp: steps_snoc)
  from assms(1) before have "reachable (constructor cfg) s1"
    by (auto simp: reachable_iff_steps)
  then have "submitted_once s1"
    by (rule reachable_submitted_once) simp
  with last have "effects s1 = []"
    by (auto dest: step_open simp: submitted_once_def)
  from step_closes [OF last _ this False] show ?thesis
    by (cases cfg) (auto simp: acts False)
qed

theorem one_submission_per_window_witness:
  "initial \<lparr> components = [''registryTabCheckboxGroup'' \<mapsto> []], form_valid = False,
       form_values = [], is_open = True, effects = [] \<rparr>
   \<and> run (constructor (Some []))
        [Press 0, Edit [(''cswServiceId'', JStr ''srv1'')] True, Press 0]
        \<lparr> components = [''registryTabCheckboxGroup'' \<mapsto> []], form_valid = False,
          form_values = [], is_open = True, effects = [] \<rparr>
     = Some \<lparr> components = [''registryTabCheckboxGroup'' \<mapsto> []], form_valid = True,
          form_values = [(''cswServiceId'', JStr ''srv1'')], is_open = False,
          effects = submission [panel_for [] [(''cswServiceId'', JStr ''srv1'')] (JStr ''srv1'')] \<rparr>
   \<and> fired_panels (submission [panel_for [] [(''cswServiceId'', JStr ''srv1'')] (JStr ''srv1'')])
     = [panel_for [] [(''cswServiceId'', JStr ''srv1'')] (JStr ''srv1'')]
   \<and> run (constructor (Some [])) [Press 0, Dismiss]
        \<lparr> components = [''registryTabCheckboxGroup'' \<mapsto> []], form_valid = False,
          form_values = [], is_open = True, effects = [] \<rparr>
     = Some \<lparr> components = [''registryTabCheckboxGroup'' \<mapsto> []], form_valid = False,
          form_values = [], is_open = False, effects = [] \<rparr>
   \<and> run (constructor (Some [(''closable'', CBool False)])) [Press 0, Dismiss]
        \<lparr> components = [''registryTabCheckboxGroup'' \<mapsto> []], form_valid = False,
          form_values = [], is_open = True, effects = [] \<rparr>
     = None"
proof -
  let ?start = "\<lparr> components = [''registryTabCheckboxGroup'' \<mapsto> ([] :: checkbox list)],
       form_valid = False, form_values = [], is_open = True, effects = [] \<rparr>"
  let ?acts = "[Press 0, Edit [(''cswServiceId'', JStr ''srv1'')] True, Press 0]"
  let ?p = "panel_for [] [(''cswServiceId'', JStr ''srv1'')] (JStr ''srv1'')"
  let ?s = "?start\<lparr> form_valid := True, form_values := [(''cswServiceId'', JStr ''srv1'')],
       is_open := False, effects := submission [?p] \<rparr>"
  have init: "initial ?start"
    by (simp add: csw_eval)
  have run: "run (constructor (Some [])) ?acts ?start = Some ?s"
    by (simp add: csw_eval csw_spec)
  then have trace: "steps (constructor (Some [])) ?start ?acts ?s"
    by (simp only: steps_iff_run)
  have dismissed: "run (constructor (Some [])) [Press 0, Dismiss] ?start
      = Some (?start\<lparr> is_open := False \<rparr>)"
    and refused: "run (constructor (Some [(''closable'', CBool False)])) [Press 0, Dismiss] ?start
      = None"
    by (simp_all add: csw_eval)
  from one_submission_per_window [OF init trace] init run dismissed refused show ?thesis
    by simp
qed

text \<open>
  C18.  Every panel a window ever emits is well-formed: in every reachable state,
  each panel carried by an effect of the trace is a paging panel whose store queries
  with parallel arrays of names and values, the name \<open>cswServiceId\<close> last and only
  there, every other value present.
\<close>

theorem reachable_panels_wf:
  assumes "reachable (constructor cfg) s"
  shows "trace_wf (effects s)"
  using assms by (rule reachable_trace_wf) simp

theorem reachable_panels_wf_witness:
  "reachable (constructor (Some []))
     \<lparr> components = [''registryTabCheckboxGroup'' \<mapsto> []], form_valid = True,
       form_values = [(''keyword'', JStr ''ice''), (''cswServiceId'', JStr ''srv1'')],
       is_open = False,
       effects = submission [panel_for [] [(''keyword'', JStr ''ice''), (''cswServiceId'', JStr ''srv1'')]
                               (JStr ''srv1'')] \<rparr>
   \<and> trace_wf (submission [panel_for [] [(''keyword'', JStr ''ice''), (''cswServiceId'', JStr ''srv1'')]
                               (JStr ''srv1'')])"
proof -
  let ?vs = "[(''keyword'', JStr ''ice''), (''cswServiceId'', JStr ''srv1'')]"
  let ?start = "\<lparr> components = [''registryTabCheckboxGroup'' \<mapsto> ([] :: checkbox list)],
       form_valid = True, form_values = ?vs, is_open = True, effects = [] \<rparr>"
  let ?s = "?start\<lparr> is_open := False, effects := submission [panel_for [] ?vs (JStr ''srv1'')] \<rparr>"
  have init: "initial ?start"
    by (simp add: csw_eval)
  have run: "run (constructor (Some [])) [Press 0] ?start = Some ?s"
    by (simp add: csw_eval csw_spec)
  have reach: "reachable (constructor (Some [])) ?s"
    using init run by (rule reachable_run)
  from reachable_panels_wf [OF reach] reach show ?thesis
    by simp
qed

text \<open>
  C25.  A press that raises can be retried.  With a valid form selecting at least one
  service and no registry group, the press raises and changes nothing; once the group
  is registered, the next press submits one panel per selected service and closes.
\<close>

theorem raise_then_retry:
  assumes "is_open s" and "form_valid s" and "wf_obj (form_values s)"
    and "components s ''registryTabCheckboxGroup'' = None"
    and "selected_ids (form_values s) \<noteq> []"
  shows "run (constructor (Some cfg)) [Press 0] s = Some s
       \<and> run (constructor (Some cfg))
           [Press 0, SetComponent ''registryTabCheckboxGroup'' (Some boxes), Press 0] s
         = Some (s\<lparr>components := (components s)(''registryTabCheckboxGroup'' \<mapsto> boxes),
                  effects := effects s @ submission
                    (map (panel_for boxes (form_values s)) (selected_ids (form_values s))),
                  is_open := False\<rparr>)"
proof -
  let ?ids = "selected_ids (form_values s)"
  let ?cm = "(components s)(''registryTabCheckboxGroup'' \<mapsto> boxes)"
  have "res_mapM (getTabPanels (components s) (Some (form_values s))) ?ids = Inl TypeError"
    using assms(5) by (intro res_mapM_raises getTabPanels_no_group assms(4))
  with assms(2,3) have raises: "handler s = Inl TypeError"
    by (simp add: handler_mapM)
  have "res_mapM (getTabPanels ?cm (Some (form_values s))) ?ids
      = Inr (map (panel_for boxes (form_values s)) ?ids)"
    by (rule res_mapM_total) (simp add: getTabPanels_panel_for [where cm = ?cm] assms(3))
  with assms(2,3) have "handler (s\<lparr>components := ?cm\<rparr>)
      = Inr (s\<lparr>components := ?cm, effects := effects s @ submission
               (map (panel_for boxes (form_values s)) ?ids), is_open := False\<rparr>)"
    by (simp add: handler_mapM)
  with raises assms(1) show ?thesis
    by (simp add: exec_Press_constructor)
qed

theorem raise_then_retry_witness:
  "wf_obj [(''cswServiceId'', JStr ''srv1'')]
   \<and> selected_ids [(''cswServiceId'', JStr ''srv1'')] \<noteq> []
   \<and> run (constructor (Some [])) [Press 0]
       \<lparr> components = Map.empty, form_valid = True,
         form_values = [(''cswServiceId'', JStr ''srv1'')], is_open = True, effects = [] \<rparr>
     = Some \<lparr> components = Map.empty, form_valid = True,
         form_values = [(''cswServiceId'', JStr ''srv1'')], is_open = True, effects = [] \<rparr>
   \<and> run (constructor (Some []))
       [Press 0, SetComponent ''registryTabCheckboxGroup'' (Some []), Press 0]
       \<lparr> components = Map.empty, form_valid = True,
         form_values = [(''cswServiceId'', JStr ''srv1'')], is_open = True, effects = [] \<rparr>
     = Some \<lparr> components = [''registryTabCheckboxGroup'' \<mapsto> []], form_valid = True,
         form_values = [(''cswServiceId'', JStr ''srv1'')], is_open = False,
         effects = submission [panel_for [] [(''cswServiceId'', JStr ''srv1'')] (JStr ''srv1'')] \<rparr>"
proof -
  let ?start = "\<lparr> components = (Map.empty :: component_manager), form_valid = True,
       form_values = [(''cswServiceId'', JStr ''srv1'')], is_open = True, effects = [] \<rparr>"
  have opened: "is_open ?start" and valid: "form_valid ?start"
    and wf: "wf_obj (form_values ?start)"
    and group: "components ?start ''registryTabCheckboxGroup'' = None"
    and some: "selected_ids (form_values ?start) \<noteq> []"
    by (simp_all add: csw_spec csw_eval)
  have run: "run (constructor (Some [])) [Press 0] ?start = Some ?start"
    by (simp add: csw_eval)
  from raise_then_retry [OF opened valid wf group some, of "[]" "[]"] wf some run show ?thesis
    by (simp add: csw_spec csw_eval)
qed

text \<open>
  C29.  A window constructed without a configuration has no Search button: it can be
  edited and dismissed, but no press is a step of it, so it never emits anything.
\<close>

theorem no_config_never_submits:
  assumes "reachable (constructor None) s"
  shows "effects s = []"
  using assms
  by (induction rule: reachable.induct) (auto simp: initial_def elim: step.cases)

theorem no_config_never_submits_witness:
  "reachable (constructor None)
     \<lparr> components = Map.empty, form_valid = True,
       form_values = [(''cswServiceId'', JStr ''srv1'')], is_open = True, effects = [] \<rparr>
   \<and> exec (constructor None) (Press 0)
       \<lparr> components = Map.empty, form_valid = True,
         form_values = [(''cswServiceId'', JStr ''srv1'')], is_open = True, effects = [] \<rparr> = None"
proof -
  let ?start = "\<lparr> components = (Map.empty :: component_manager), form_valid = False,
       form_values = [], is_open = True, effects = [] \<rparr>"
  let ?final = "\<lparr> components = (Map.empty :: component_manager), form_valid = True,
       form_values = [(''cswServiceId'', JStr ''srv1'')], is_open = True, effects = [] \<rparr>"
  have init: "initial ?start"
    by (simp add: csw_eval)
  have run: "run (constructor None) [Edit [(''cswServiceId'', JStr ''srv1'')] True] ?start = Some ?final"
    by (simp add: csw_eval)
  have reach: "reachable (constructor None) ?final"
    using init run by (rule reachable_run)
  from no_config_never_submits [OF reach] reach show ?thesis
    by simp
qed

end
