(* ===== verification/Enumeration.thy ===== *)
theory Enumeration
  imports Filter_Window "HOL-Library.While_Combinator"
begin

text \<open>
  The loop \<open>for (additionalParamKey in additionalParams)\<close> of the handler (lines 34 to
  44) writes to the object it enumerates.  The language leaves open what an
  enumeration sees of a property added while it runs.  \<open>collect_panels\<close> enumerates
  the keys the object has when the loop starts; this theory gives the other reading,
  a loop that looks at the object as it is at every iteration, and shows that it
  ends and computes the same: the body never adds a property, so the two readings
  cannot differ.
\<close>

section \<open>The loop that re-reads the object\<close>

text \<open>
  The state of the loop: the object, the panels pushed so far, the position in the
  enumeration, and the error once the body has raised.
\<close>

type_synonym loop_state = "jsobj \<times> tab_panel list \<times> nat \<times> js_error option"

definition live_guard :: "loop_state \<Rightarrow> bool" where
  "live_guard = (\<lambda>(additionalParams, filteredResultPanels, i, raised).
     raised = None \<and> i < length (own_keys additionalParams))"

definition live_body :: "component_manager \<Rightarrow> loop_state \<Rightarrow> loop_state" where
  "live_body cm = (\<lambda>(additionalParams, filteredResultPanels, i, raised).
     case param_step cm (own_keys additionalParams ! i) (additionalParams, filteredResultPanels) of
       Inl e \<Rightarrow> (additionalParams, filteredResultPanels, i, Some e)
     | Inr (additionalParams', filteredResultPanels') \<Rightarrow>
         (additionalParams', filteredResultPanels', Suc i, None))"

definition loop_result :: "loop_state \<Rightarrow> (jsobj \<times> tab_panel list) result" where
  "loop_result = (\<lambda>(additionalParams, filteredResultPanels, i, raised).
     case raised of None \<Rightarrow> Inr (additionalParams, filteredResultPanels) | Some e \<Rightarrow> Inl e)"

definition collect_panels_live ::
  "component_manager \<Rightarrow> jsobj \<Rightarrow> (jsobj \<times> tab_panel list) result option" where
  "collect_panels_live cm additionalParams =
     map_option loop_result
       (while_option live_guard (live_body cm) (additionalParams, [], 0, None))"

section \<open>The body never adds a property\<close>

lemma param_step_keys:
  assumes "param_step cm k (obj, acc) = Inr (obj', acc')" and "k \<in> set (own_keys obj)"
  shows "own_keys obj' = own_keys obj"
proof (cases "k = cswServiceId")
  case True
  with assms show ?thesis
    by (auto simp: param_step_service_id res_bind_eq_Inr_iff coerce_service_ids_keys)
next
  case False
  with assms(1) show ?thesis
    by (simp add: param_step_other)
qed

section \<open>One iteration\<close>

text \<open>
  The loop unfolds by one iteration: past the last key it stops; a raise of the body
  stops it with the error; otherwise it goes on at the next position with the object
  and the panels the body returned.  This equation runs the loop on a concrete form.
\<close>

lemma live_guard_apply [simp]:
  "live_guard (obj, acc, i, raised) \<longleftrightarrow> raised = None \<and> i < length (own_keys obj)"
  by (simp add: live_guard_def)

lemma live_body_apply [simp]:
  "live_body cm (obj, acc, i, raised) =
     (case param_step cm (own_keys obj ! i) (obj, acc) of
        Inl e \<Rightarrow> (obj, acc, i, Some e)
      | Inr (obj', acc') \<Rightarrow> (obj', acc', Suc i, None))"
  by (simp add: live_body_def)

lemma live_loop_raised [simp]:
  "while_option live_guard (live_body cm) (obj, acc, i, Some e) = Some (obj, acc, i, Some e)"
  by (subst while_option_unfold) simp

lemma live_loop_unfold:
  "while_option live_guard (live_body cm) (obj, acc, i, None) =
     (if i < length (own_keys obj)
      then (case param_step cm (own_keys obj ! i) (obj, acc) of
              Inl e \<Rightarrow> Some (obj, acc, i, Some e)
            | Inr (obj', acc') \<Rightarrow>
                while_option live_guard (live_body cm) (obj', acc', Suc i, None))
      else Some (obj, acc, i, None))"
  by (subst while_option_unfold) (simp split: sum.split)

lemmas enumeration_eval [csw_eval] =
  collect_panels_live_def loop_result_def live_loop_unfold

lemma collect_panels_live_example:
  "collect_panels_live [''registryTabCheckboxGroup'' \<mapsto> []]
     [(''keyword'', JStr ''ice''), (''cswServiceId'', JStr ''srv1'')]
   = Some (Inr ([(''keyword'', JStr ''ice''), (''cswServiceId'', JArr [JStr ''srv1''])],
                [panel_for [] [(''keyword'', JStr ''ice''), (''cswServiceId'', JStr ''srv1'')]
                   (JStr ''srv1'')]))"
  by (simp add: csw_eval csw_spec)

section \<open>The loop ends, with the result of the enumeration of the initial keys\<close>

lemma live_loop_from:
  assumes "i \<le> length (own_keys obj)"
  shows "\<exists>obj' acc' j raised.
           while_option live_guard (live_body cm) (obj, acc, i, None) = Some (obj', acc', j, raised)
           \<and> j \<le> length (own_keys obj) \<and> own_keys obj' = own_keys obj
           \<and> loop_result (obj', acc', j, raised)
               = for_each (param_step cm) (drop i (own_keys obj)) (obj, acc)"
  using assms
proof (induction "length (own_keys obj) - i" arbitrary: obj acc i)
  case 0
  then show ?case
    by (subst live_loop_unfold) (simp add: loop_result_def)
next
  case (Suc n)
  then have i: "i < length (own_keys obj)"
    by simp
  let ?k = "own_keys obj ! i"
  show ?case
  proof (cases "param_step cm ?k (obj, acc)")
    case (Inl e)
    with i show ?thesis
      by (subst live_loop_unfold) (simp add: loop_result_def drop_index_Cons)
  next
    case (Inr st)
    obtain obj1 acc1 where st: "st = (obj1, acc1)"
      by (cases st)
    from Inr have "param_step cm ?k (obj, acc) = Inr (obj1, acc1)"
      by (simp add: st)
    then have keys: "own_keys obj1 = own_keys obj"
      by (rule param_step_keys) (simp add: i)
    with Suc.hyps(2) i have "n = length (own_keys obj1) - Suc i" and "Suc i \<le> length (own_keys obj1)"
      by simp_all
    from Suc.hyps(1) [OF this, of acc1] Inr i show ?thesis
      by (subst live_loop_unfold) (simp add: st keys drop_index_Cons)
  qed
qed

section \<open>The property\<close>

text \<open>
  C12.  Termination.  The loop over the form values ends on every form, also when the
  enumeration follows the object while the body writes to it, and it ends with the
  result of \<open>collect_panels\<close>: the same object, the same panels in the same order, or
  the same raise.
\<close>

theorem collect_panels_live_halts:
  "collect_panels_live cm obj = Some (collect_panels cm obj)"
proof -
  from live_loop_from [of 0 obj cm "[]"] obtain st where
    "while_option live_guard (live_body cm) (obj, [], 0, None) = Some st"
    and "loop_result st = for_each (param_step cm) (own_keys obj) (obj, [])"
    by auto
  then show ?thesis
    by (simp add: collect_panels_live_def collect_panels_def)
qed

end
