(* ===== verification/Spec2Isabelle.thy ===== *)
theory Spec2Isabelle
  imports Window_Lifecycle Enumeration
begin

text \<open>
  \<^bold>\<open>The program.\<close>  \<^verbatim>\<open>CSWFilterWindow.js\<close> (portal-core,
  \<^verbatim>\<open>src/src/main/webapp/portal-core/js/portal/widgets/window/\<close>) defines the modal
  window in which a user fills in a search form and presses Search.  One press fans
  out into one paged search per selected catalogue service.  The file has three
  parts: the constructor (lines 6 to 63), which configures the window and wires the
  Search button; the handler of that button (lines 27 to 56), which validates the
  form, reads its values, and for each value of the field \<open>cswServiceId\<close> asks
  \<open>_getTabPanels\<close> for a result panel, then fires \<open>filterselectcomplete\<close>, shows the
  selection window and closes itself; and \<open>_getTabPanels\<close> (lines 77 to 143) with its
  local function \<open>denormaliseKvp\<close> (lines 85 to 94), which turns the form values into two
  parallel arrays of parameter names and values, appends the service identifier,
  configures a store paging by 35, and resolves the title of the service among the
  checked registries.

  \<^bold>\<open>The theories.\<close>
  \<^item> \<open>CSW_Prelude\<close>: results of operations that can raise (\<open>Inl\<close> a raise, \<open>Inr\<close> a
    return, \<open>res_bind\<close> sequencing), \<open>for_each\<close> (a loop over a list that threads a state:
    the \<open>for (k in obj)\<close> loops), \<open>res_mapM\<close>, the collections \<open>csw_eval\<close> (equations
    that run the operations on concrete inputs) and \<open>csw_spec\<close> (equations of the
    reference definitions), and shared list and association-list lemmas.
  \<^item> \<open>JS_Value\<close>: the values (\<open>jsval\<close>), the guards of the language the code uses
    (\<open>truthy\<close>, \<open>length_gt_zero\<close>, \<open>instanceof_Array\<close>, \<open>strict_eq_str\<close>), and plain objects
    as lists of properties in enumeration order (\<open>own_keys\<close>, \<open>obj_get\<close>, \<open>obj_set\<close>) with
    the well-formedness predicate \<open>wf_obj\<close> (no property twice); the two types of a
    form value, string and array of strings (\<open>form_type\<close>), with the executable checker
    \<open>type_of\<close> and the typed objects \<open>form_typed\<close>.
  \<^item> \<open>Denormalise\<close>: \<open>denormaliseKvp\<close> as the code writes it (\<open>kvp_guard\<close>, \<open>kvp_step\<close>, the
    loop), the reference definition \<open>kept_fields\<close>, their equivalence, and the
    properties of the result (never raises, parallel arrays, no \<open>cswServiceId\<close>, only
    present values, enumeration order).
  \<^item> \<open>Tab_Panels\<close>: \<open>_getTabPanels\<close>: the store configuration (\<open>filterCSWStore\<close>), the
    lookup of the checkbox group (\<open>registriesArray\<close>; a TypeError when the component does
    not exist), the title loop with its \<open>break\<close> (\<open>title_loop\<close>, \<open>resolve_title\<close>) and the
    result (\<open>getTabPanels\<close>); first match wins, fallback title, shape (\<open>panel_wf\<close>) and
    types (\<open>panel_typed\<close>) of every panel.
  \<^item> \<open>Filter_Window\<close>: the handler: the state of the user interface (\<open>ui_state\<close>, with
    the trace of \<open>effect\<close>s), the coercion of the field to an array
    (\<open>coerce_service_ids\<close>), the counting loop (\<open>push_panels\<close>), the loop over the keys
    (\<open>param_step\<close>, \<open>collect_panels\<close>) and \<open>handler\<close>; what a submission does on every
    branch (invalid form, valid form, empty selection, missing registry group); the
    loop preserves the types of the form values and builds typed panels, as many as
    services are selected, each with at most as many parameters as the form has fields.
  \<^item> \<open>Enumeration\<close>: the loop over the form values once more, as a \<open>while_option\<close> loop
    that reads the keys of the object at every iteration (\<open>live_guard\<close>, \<open>live_body\<close>,
    \<open>collect_panels_live\<close>): the body writes to the object it enumerates, and the loop
    is shown to end and to compute what \<open>collect_panels\<close> computes.
  \<^item> \<open>Window_Config\<close>: the constructor: the configuration objects (\<open>cfg\<close>, \<open>button\<close>,
    \<open>form_panel\<close>), \<open>Ext.apply\<close> (\<open>ext_apply\<close>), the fixed configuration
    (\<open>window_config\<close>, \<open>search_button\<close>) and \<open>constructor\<close>; what the constructed window
    holds whatever the caller passes, what it keeps of the caller's configuration, and
    what happens without one.
  \<^item> \<open>Window_Lifecycle\<close>: the life of the window between \<open>show()\<close> and \<open>close()\<close> as a
    labelled transition system (\<open>step\<close>, with the executable \<open>exec\<close> and \<open>run\<close>, and
    \<open>reachable\<close>): the user edits the form, the component registry changes, the Search
    button is pressed, the user dismisses the window with its close tool (\<open>closable\<close>);
    the invariants of every reachable state (at most one submission, made by the last
    action; nothing emitted by a dismissal; only well-formed panels), recovery after a
    raise.
  \<^item> this theory: the contract of the specification (\<open>denormalize\<close>, \<open>buildTasks\<close>
    over \<open>field_value\<close>, the tagged union of its design notes; the dialog around them
    as a machine, \<open>dialog_step\<close> and \<open>dialog_run\<close>), the embedding of its data into the
    values of the program (\<open>js_form\<close>, \<open>boxes_of\<close>, \<open>panel_of_task\<close>, \<open>ui_of\<close>,
    \<open>action_of\<close>), the refinement theorems (\<open>_getTabPanels\<close> implements \<open>denormalize\<close>,
    the handler implements \<open>buildTasks\<close>, the constructed window implements the
    dialog, action by action), that the typed objects are exactly the forms of the
    specification (\<open>form_typed_iff_js_form\<close>), and the three scenarios of the
    specification run through the model of the code, as tests of the model.

  \<^bold>\<open>How the theories fit.\<close>  Each component theory proves, from the code as written,
  one equation that says what its operation computes (\<open>denormaliseKvp_keys\<close>,
  \<open>getTabPanels_keys\<close>, \<open>handler_mapM\<close>, \<open>cfg_get_constructor\<close>, \<open>step_iff_exec\<close>), and the
  theory above it works from that equation and not from the loops.  The lemmas of the
  life cycle are stated for any window whose buttons run the handler (\<open>wired\<close>); the
  constructor is shown to build such a window.  Concrete inputs are run with the
  equations collected in \<open>csw_eval\<close>.

  \<^bold>\<open>Correspondence.\<close>  Every operation keeps the name it has in the source where it
  has one.  Arrays the code mutates by \<open>push\<close> are passed in and returned.  An object is
  mutated by \<open>obj_set\<close> and handed on.  Each \<open>for\<close> loop with a counter is a \<open>function\<close>
  with a termination proof by the measure \<open>length - index\<close>.  A \<open>for (k in obj)\<close> loop is
  \<open>for_each\<close> over the keys the object has when the loop starts; for the loop of the
  handler, whose body writes to the object, the theory \<open>Enumeration\<close> also gives the loop
  that follows the object, as \<open>while_option\<close>, where a loop that does not end has the
  value \<open>None\<close>: it is \<open>Some\<close> on every input after at most one iteration per field
  (\<open>live_loop_from\<close>).  No fuel is used anywhere and every operation is total.  A raise
  is a value \<open>Inl TypeError\<close>: of the method call on a component that does not exist
  (line 124) and of the read of \<open>length\<close> on \<open>undefined\<close> or \<open>null\<close> (lines 39 and 88; the
  truthiness test of line 88 and the coercion of line 37 keep the handler from ever
  raising there).  The effects of the handler on the world (event, new window, close) are appended to the field
  \<open>effects\<close> of the state in the order the code performs them.  The handler is stored
  in the button as the function it is, so that a press in the life cycle runs
  \<open>handler\<close> itself.  A handler that raises leaves the state unchanged, because it
  raises before its first effect.

  \<^bold>\<open>Assumptions.\<close>  Form values are strings, arrays, \<open>undefined\<close>, \<open>null\<close>, booleans or
  integral numbers; \<open>inputValue\<close> and \<open>boxLabel\<close> of a checkbox are strings; the list
  representing an object is in the order the engine enumerates it; the Search button
  sits in its window with the form as first item, so that \<open>findParentByType\<close>,
  \<open>getComponent(0)\<close> and \<open>getForm()\<close> succeed; \<open>Ext.create\<close>, \<open>fireEvent\<close>, \<open>show\<close> and
  \<open>close\<close> return normally; \<open>getValues()\<close> hands out a fresh object at every call, so
  that the write of line 37 changes the working copy and not the form; a component
  registered as \<open>registryTabCheckboxGroup\<close> is a checkbox group and has \<open>getChecked\<close>;
  the base class builds its items and its button bar from the configuration it is
  handed; a click reaches the handler only while the window is open; the window has
  a close tool unless its configuration sets \<open>closable\<close> to a falsy value, and closing
  by it emits nothing; a closed window is not shown again (a caller's \<open>closeAction\<close>
  \<open>hide\<close>, which the constructor would keep, is outside the life cycle).  The property
  \<open>scope\<close> of the button is recorded as data; the handler of the model is the function
  with \<open>this\<close> bound to the window, which is what \<open>scope : this\<close> arranges.  In the life
  cycle the validity of the form is not derived from its values: an edit sets both,
  so every form panel is covered.

  \<^bold>\<open>Not modelled.\<close>  Every line of code of the file is modelled; the lines the
  definitions do not cover are blank or the comment in front of \<open>_getTabPanels\<close> (lines
  67 to 76, which describe another function, with a callback and a template name).
  What is left out is not in the file:
  \<^item> the form panel \<open>CSWFilterFormPanel\<close> (its fields and its validation): the handler
    only asks it \<open>isValid()\<close> and \<open>getValues()\<close>, which are the fields \<open>form_valid\<close> and
    \<open>form_values\<close> of the state, set freely by \<open>Edit\<close>;
  \<^item> the selection window \<open>CSWSelectionWindow\<close>: its creation and \<open>show()\<close> are the effect
    \<open>ShowWindow\<close>; what it renders is its own;
  \<^item> the request a store sends when the results view loads a page: the file
    configures the store (\<open>filterCSWStore\<close>, with \<open>autoLoad\<close> off) and never loads it; the
    request is built by \<open>Ext.data.proxy.Ajax\<close>, and a model of its serialisation of
    array-valued parameters would state facts of the framework, not of this file;
  \<^item> listeners of \<open>filterselectcomplete\<close>: they are registered by the callers of the
    window; the model records that the event is fired, with which panels and before
    which other effects, and assumes \<open>fireEvent\<close> returns;
  \<^item> destruction of the window after \<open>close()\<close>, rendering, network transport;
  \<^item> of the language: objects other than arrays as form values, inherited
    properties, the engine's order of enumeration for integer-like names (the list
    that represents an object is taken to be in that order), and the implicit global
    variables of the two \<open>for (k in obj)\<close> loops.

  \<^bold>\<open>Plan.\<close>  (1) values and objects; (2) the denormaliser; (3) the task builder;
  (4) the handler; (5) the contract of the specification and the refinement; (6) the
  constructor and \<open>Ext.apply\<close>; (7) the life cycle of the window as a step relation
  with its invariants; (8) types of the form values and their preservation, bounds
  on the result; (9) the enumeration that follows the object, and its termination;
  (10) dismissal of the window.  All ten are in place.  The request of a store and the listeners, planned earlier as further
  components, are left out for the reasons above.
\<close>

section \<open>The contract of the specification\<close>

text \<open>
  The specification describes the core over explicit data: a field value is a
  single string or a sequence of strings, the form values are an ordered mapping,
  the registry is a list of identifier and label, and a search task bundles a title,
  a parameter list and a page size.  It calls the reserved field \<open>serviceId\<close>; the
  definitions here use the name the code uses.
\<close>

datatype field_value = Scalar string | Sequence "string list"

type_synonym form_fields = "(string \<times> field_value) list"

record parameter_list =
  pl_names :: "string list"
  pl_values :: "field_value list"

record search_task =
  task_title :: string
  parameters :: parameter_list
  task_pageSize :: nat

fun nonempty :: "field_value \<Rightarrow> bool" where
  "nonempty (Scalar s) = (s \<noteq> [])"
| "nonempty (Sequence xs) = (xs \<noteq> [])"

fun id_sequence :: "field_value \<Rightarrow> string list" where
  "id_sequence (Scalar s) = [s]"
| "id_sequence (Sequence xs) = xs"

definition denormalize :: "form_fields \<Rightarrow> string \<Rightarrow> parameter_list" where
  "denormalize allValues serviceId =
     (let kept = filter (\<lambda>(k, v). k \<noteq> cswServiceId \<and> nonempty v) allValues
      in \<lparr> pl_names = map fst kept @ [cswServiceId],
            pl_values = map snd kept @ [Scalar serviceId] \<rparr>)"

definition lookup_title :: "(string \<times> string) list \<Rightarrow> string \<Rightarrow> string" where
  "lookup_title registry ident =
     (case map_of registry ident of None \<Rightarrow> ''Error retrieving title'' | Some label \<Rightarrow> label)"

definition buildTasks :: "form_fields \<Rightarrow> (string \<times> string) list \<Rightarrow> search_task list" where
  "buildTasks allValues registry =
     map (\<lambda>ident. \<lparr> task_title = lookup_title registry ident,
                     parameters = denormalize allValues ident,
                     task_pageSize = 35 \<rparr>)
       (case map_of allValues cswServiceId of None \<Rightarrow> [] | Some v \<Rightarrow> id_sequence v)"

section \<open>From the data of the specification to the values of the program\<close>

fun js_of :: "field_value \<Rightarrow> jsval" where
  "js_of (Scalar s) = JStr s"
| "js_of (Sequence xs) = JArr (map JStr xs)"

definition js_form :: "form_fields \<Rightarrow> jsobj" where
  "js_form allValues = map (\<lambda>(k, v). (k, js_of v)) allValues"

definition boxes_of :: "(string \<times> string) list \<Rightarrow> checkbox list" where
  "boxes_of registry =
     map (\<lambda>(ident, label). \<lparr>inputValue = ident, boxLabel = label, checked = True\<rparr>) registry"

definition panel_of_task :: "search_task \<Rightarrow> tab_panel" where
  "panel_of_task t =
     \<lparr> title = task_title t,
       xtype = ''cswrecordpagingpanel'',
       layout = ''fit'',
       store = (filterCSWStore (pl_names (parameters t)) (map js_of (pl_values (parameters t))))
                 \<lparr> pageSize := task_pageSize t \<rparr> \<rparr>"

section \<open>The dialog of the specification\<close>

text \<open>
  The control flow the specification gives (submit, validate, extract, build the
  tasks, emit them, the host moves on) as a machine over its own data: the dialog
  holds the form, the answer of the validation, the registry, and the tasks once it
  has submitted.  A submission on a valid form emits the tasks of \<open>buildTasks\<close> and
  ends the dialog; on an invalid form nothing happens; after the submission no action
  is accepted.
\<close>

record dialog =
  d_form :: form_fields
  d_valid :: bool
  d_registry :: "(string \<times> string) list"
  d_tasks :: "search_task list option"

datatype dialog_action =
    Fill form_fields bool
  | Check "(string \<times> string) list"
  | Submit

fun dialog_react :: "dialog_action \<Rightarrow> dialog \<Rightarrow> dialog" where
  "dialog_react (Fill m ok) d = d\<lparr>d_form := m, d_valid := ok\<rparr>"
| "dialog_react (Check R) d = d\<lparr>d_registry := R\<rparr>"
| "dialog_react Submit d =
     (if d_valid d then d\<lparr>d_tasks := Some (buildTasks (d_form d) (d_registry d))\<rparr> else d)"

definition dialog_step :: "dialog_action \<Rightarrow> dialog \<Rightarrow> dialog option" where
  "dialog_step a d = (if d_tasks d = None then Some (dialog_react a d) else None)"

fun dialog_run :: "dialog_action list \<Rightarrow> dialog \<Rightarrow> dialog option" where
  "dialog_run [] d = Some d"
| "dialog_run (a # acts) d =
     (case dialog_step a d of None \<Rightarrow> None | Some d' \<Rightarrow> dialog_run acts d')"

text \<open>A form of the specification is an ordered mapping: no name twice.\<close>

fun wf_dialog_action :: "dialog_action \<Rightarrow> bool" where
  "wf_dialog_action (Fill m ok) = distinct (map fst m)"
| "wf_dialog_action a = True"

text \<open>
  The state of the user interface that stands for a dialog, and the action of the
  user that stands for an action of the dialog: the registry is the checkbox group
  with every listed box checked, a submitted dialog is a closed window whose trace is
  the submission of its tasks.
\<close>

definition ui_of :: "dialog \<Rightarrow> ui_state" where
  "ui_of d =
     \<lparr> components = [''registryTabCheckboxGroup'' \<mapsto> boxes_of (d_registry d)],
       form_valid = d_valid d,
       form_values = js_form (d_form d),
       is_open = (d_tasks d = None),
       effects = (case d_tasks d of None \<Rightarrow> [] | Some ts \<Rightarrow> submission (map panel_of_task ts)) \<rparr>"

fun action_of :: "dialog_action \<Rightarrow> action" where
  "action_of (Fill m ok) = Edit (js_form m) ok"
| "action_of (Check R) = SetComponent ''registryTabCheckboxGroup'' (Some (boxes_of R))"
| "action_of Submit = Press 0"

text \<open>
  The data of the scenarios of the specification: the registry holding the service
  \<open>srv1\<close> labelled \<open>Registry One\<close>, a window just shown on a valid form, and a paging
  panel with a title and parameters.
\<close>

abbreviation registry_one :: component_manager where
  "registry_one \<equiv> [''registryTabCheckboxGroup'' \<mapsto>
     [\<lparr>inputValue = ''srv1'', boxLabel = ''Registry One'', checked = True\<rparr>]]"

abbreviation shown_valid :: "jsobj \<Rightarrow> ui_state" where
  "shown_valid additionalParams \<equiv>
     \<lparr> components = registry_one, form_valid = True, form_values = additionalParams,
       is_open = True, effects = [] \<rparr>"

abbreviation paging_panel :: "string \<Rightarrow> string list \<Rightarrow> jsval list \<Rightarrow> tab_panel" where
  "paging_panel t ks vs \<equiv>
     \<lparr> title = t, xtype = ''cswrecordpagingpanel'', layout = ''fit'',
       store = filterCSWStore ks vs \<rparr>"

lemmas contract_defs [csw_spec] =
  denormalize_def lookup_title_def buildTasks_def js_form_def boxes_of_def panel_of_task_def
  dialog_step_def ui_of_def

section \<open>The embedding commutes with the reference definitions\<close>

lemma own_keys_js_form [simp]: "own_keys (js_form m) = map fst m"
  by (simp add: js_form_def own_keys_def comp_def case_prod_unfold)

lemma wf_obj_js_form [simp]: "wf_obj (js_form m) \<longleftrightarrow> distinct (map fst m)"
  by (simp add: wf_obj_def)

lemma obj_get_js_form:
  "obj_get (js_form m) k = (case map_of m k of None \<Rightarrow> JUndefined | Some v \<Rightarrow> js_of v)"
  by (induction m) (auto simp: js_form_def)

lemma present_js_of [simp]: "present (js_of v) = nonempty v"
  by (cases v) simp_all

text \<open>
  The values that stand for a field value of the specification are exactly the typed
  ones: the type checker decides whether an object is a form of the specification.
\<close>

lemma type_of_js_of [simp]:
  "type_of (js_of v) = Some (case v of Scalar s \<Rightarrow> TScalar | Sequence xs \<Rightarrow> TSequence)"
  by (cases v) (simp_all add: list_all_iff)

lemma strings_are_map_JStr: "list_all is_string xs \<Longrightarrow> \<exists>ys. xs = map JStr ys"
proof (induction xs)
  case (Cons x xs)
  then obtain s ys where "x = JStr s" and "xs = map JStr ys"
    by (auto simp: is_string_iff)
  then have "x # xs = map JStr (s # ys)"
    by simp
  then show ?case ..
qed simp

lemma typed_is_js_of:
  assumes "type_of v \<noteq> None"
  shows "\<exists>fv. v = js_of fv"
proof (cases v)
  case (JStr s)
  then have "v = js_of (Scalar s)"
    by simp
  then show ?thesis ..
next
  case (JArr xs)
  with assms obtain ys where "xs = map JStr ys"
    by (auto dest: strings_are_map_JStr split: if_splits)
  with JArr have "v = js_of (Sequence ys)"
    by simp
  then show ?thesis ..
qed (use assms in simp_all)

lemma form_typed_iff_js_form: "form_typed obj \<longleftrightarrow> (\<exists>m. obj = js_form m)"
proof
  assume "form_typed obj"
  then show "\<exists>m. obj = js_form m"
  proof (induction obj)
    case Nil
    have "[] = js_form []"
      by (simp add: js_form_def)
    then show ?case ..
  next
    case (Cons p obj)
    from Cons have "type_of (snd p) \<noteq> None" and "\<exists>m. obj = js_form m"
      by simp_all
    with typed_is_js_of [of "snd p"] obtain fv m where "snd p = js_of fv" and "obj = js_form m"
      by auto
    then have "p # obj = js_form ((fst p, fv) # m)"
      by (cases p) (simp add: js_form_def)
    then show ?case ..
  qed
next
  assume "\<exists>m. obj = js_form m"
  then obtain m where "obj = js_form m" ..
  then show "form_typed obj"
    by (simp add: form_typed_def js_form_def list_all_iff case_prod_unfold)
qed

lemma normalise_ids_js_of [simp]: "normalise_ids (js_of v) = map JStr (id_sequence v)"
  by (cases v) simp_all

lemma selected_ids_js_form:
  "selected_ids (js_form m)
     = map JStr (case map_of m cswServiceId of None \<Rightarrow> [] | Some v \<Rightarrow> id_sequence v)"
proof (cases "map_of m cswServiceId")
  case None
  then have "cswServiceId \<notin> set (map fst m)"
    by (simp add: map_of_eq_None_iff)
  with None show ?thesis
    by (simp add: selected_ids_def)
next
  case (Some v)
  then have "cswServiceId \<in> set (map fst m)"
    by (auto dest: map_of_SomeD intro: rev_image_eqI)
  with Some show ?thesis
    by (simp add: selected_ids_def obj_get_js_form)
qed

lemma kept_fields_js_form:
  "kept_fields (js_form m) = js_form (filter (\<lambda>(k, v). k \<noteq> cswServiceId \<and> nonempty v) m)"
  by (induction m) (auto simp: kept_fields_def kvp_keep_def js_form_def)

lemma map_fst_js_form [simp]: "map fst (js_form m) = map fst m"
  by (simp add: js_form_def comp_def case_prod_unfold)

lemma map_snd_js_form [simp]: "map snd (js_form m) = map (js_of \<circ> snd) m"
  by (simp add: js_form_def comp_def case_prod_unfold)

lemma resolve_title_boxes_of:
  "resolve_title (getChecked (boxes_of R)) (JStr ident) = lookup_title R ident"
  by (induction R) (auto simp: boxes_of_def getChecked_def lookup_title_def)

lemma panel_for_js_form:
  "panel_for (boxes_of R) (js_form m) (JStr ident)
     = panel_of_task \<lparr> task_title = lookup_title R ident, parameters = denormalize m ident,
                       task_pageSize = 35 \<rparr>"
  by (simp add: panel_for_def panel_of_task_def denormalize_def Let_def resolve_title_boxes_of
      kept_fields_js_form filterCSWStore_def)

lemma panels_js_form:
  "map (panel_for (boxes_of R) (js_form m)) (selected_ids (js_form m))
     = map panel_of_task (buildTasks m R)"
  by (simp add: selected_ids_js_form buildTasks_def panel_for_js_form comp_def)

text \<open>The handler on the values of the specification, in one equation.\<close>

lemma handler_js_form:
  assumes "distinct (map fst m)" and "form_valid s" and "form_values s = js_form m"
    and "components s ''registryTabCheckboxGroup'' = Some (boxes_of R)"
  shows "handler s = Inr (s\<lparr>effects := effects s @ submission (map panel_of_task (buildTasks m R)),
                           is_open := False\<rparr>)"
proof -
  have "getTabPanels (components s) (Some (js_form m)) sid
      = Inr (panel_for (boxes_of R) (js_form m) sid)" for sid
    using assms(1,4) by (intro getTabPanels_panel_for [where cm = "components s"]) simp_all
  then have "res_mapM (getTabPanels (components s) (Some (js_form m))) (selected_ids (js_form m))
      = Inr (map panel_of_task (buildTasks m R))"
    by (simp add: res_mapM_total panels_js_form)
  with assms(1,2,3) show ?thesis
    by (simp add: handler_mapM)
qed

section \<open>One step of the window is one step of the dialog\<close>

lemma is_open_ui_of [simp]: "is_open (ui_of d) \<longleftrightarrow> d_tasks d = None"
  by (simp add: ui_of_def)

lemma ui_of_Fill:
  "d_tasks d = None \<Longrightarrow>
     (ui_of d)\<lparr>form_values := js_form m, form_valid := ok\<rparr> = ui_of (d\<lparr>d_form := m, d_valid := ok\<rparr>)"
  by (simp add: ui_of_def)

lemma ui_of_Check:
  "d_tasks d = None \<Longrightarrow>
     (ui_of d)\<lparr>components := (components (ui_of d))(''registryTabCheckboxGroup'' \<mapsto> boxes_of R)\<rparr>
       = ui_of (d\<lparr>d_registry := R\<rparr>)"
  by (simp add: ui_of_def)

lemma handler_ui_of:
  assumes "distinct (map fst (d_form d))" and "d_tasks d = None"
  shows "handler (ui_of d) = Inr (ui_of (dialog_react Submit d))"
proof (cases "d_valid d")
  case True
  with assms have "handler (ui_of d)
      = Inr ((ui_of d)\<lparr>effects := effects (ui_of d) @ submission (map panel_of_task
               (buildTasks (d_form d) (d_registry d))), is_open := False\<rparr>)"
    by (intro handler_js_form) (simp_all add: ui_of_def)
  with True assms(2) show ?thesis
    by (simp add: ui_of_def)
next
  case False
  then show ?thesis
    by (simp add: handler_def ui_of_def)
qed

lemma exec_action_of:
  assumes "distinct (map fst (d_form d))" and "wf_dialog_action a"
  shows "exec (constructor (Some cfg)) (action_of a) (ui_of d) = map_option ui_of (dialog_step a d)"
proof (cases "d_tasks d = None")
  case True
  with assms show ?thesis
    by (cases a) (simp_all add: dialog_step_def ui_of_Fill ui_of_Check handler_ui_of)
next
  case False
  then show ?thesis
    by (cases a) (auto simp: dialog_step_def)
qed

lemma dialog_step_distinct:
  assumes "dialog_step a d = Some d'" and "distinct (map fst (d_form d))" and "wf_dialog_action a"
  shows "distinct (map fst (d_form d'))"
  using assms by (cases a) (auto simp: dialog_step_def split: if_splits)

section \<open>The code implements the contract\<close>

text \<open>
  C6.  Refinement of the task builder.  For form values and a registry given as the
  specification gives them (ordered mapping with distinct names; list of identifier
  and label, all checked), a valid submission returns normally and emits exactly the
  tasks \<open>buildTasks\<close> prescribes, as panels, in its order: one per selected service,
  duplicates included, a missing registry entry degrading to the fallback title.
\<close>

theorem handler_refines_buildTasks:
  assumes "distinct (map fst m)"
  shows "handler \<lparr> components = [''registryTabCheckboxGroup'' \<mapsto> boxes_of R],
                   form_valid = True, form_values = js_form m, is_open = True, effects = es \<rparr>
       = Inr \<lparr> components = [''registryTabCheckboxGroup'' \<mapsto> boxes_of R],
               form_valid = True, form_values = js_form m, is_open = False,
               effects = es @ submission (map panel_of_task (buildTasks m R)) \<rparr>"
  using handler_js_form [OF assms, where R = R and s = "\<lparr> components =
      [''registryTabCheckboxGroup'' \<mapsto> boxes_of R], form_valid = True, form_values = js_form m,
      is_open = True, effects = es \<rparr>"]
  by simp

theorem handler_refines_buildTasks_witness:
  "distinct (map fst [(''keyword'', Scalar []), (''cswServiceId'', Sequence [''srv1'', ''srv2''])])
   \<and> handler \<lparr> components = [''registryTabCheckboxGroup'' \<mapsto> boxes_of [(''srv1'', ''Registry One'')]],
        form_valid = True,
        form_values = js_form [(''keyword'', Scalar []), (''cswServiceId'', Sequence [''srv1'', ''srv2''])],
        is_open = True, effects = [] \<rparr>
     = Inr \<lparr> components = [''registryTabCheckboxGroup'' \<mapsto> boxes_of [(''srv1'', ''Registry One'')]],
        form_valid = True,
        form_values = js_form [(''keyword'', Scalar []), (''cswServiceId'', Sequence [''srv1'', ''srv2''])],
        is_open = False,
        effects = submission
          [\<lparr> title = ''Registry One'', xtype = ''cswrecordpagingpanel'', layout = ''fit'',
             store = filterCSWStore [''cswServiceId''] [JStr ''srv1''] \<rparr>,
           \<lparr> title = ''Error retrieving title'', xtype = ''cswrecordpagingpanel'', layout = ''fit'',
             store = filterCSWStore [''cswServiceId''] [JStr ''srv2''] \<rparr>] \<rparr>"
proof -
  let ?m = "[(''keyword'', Scalar []), (''cswServiceId'', Sequence [''srv1'', ''srv2''])]"
  let ?R = "[(''srv1'', ''Registry One'')]"
  let ?s = "\<lparr> components = [''registryTabCheckboxGroup'' \<mapsto> boxes_of ?R], form_valid = True,
      form_values = js_form ?m, is_open = True, effects = [] \<rparr>"
  have names: "distinct (map fst ?m)"
    by simp
  have run: "handler ?s = Inr (?s\<lparr> is_open := False, effects := submission
      [\<lparr> title = ''Registry One'', xtype = ''cswrecordpagingpanel'', layout = ''fit'',
         store = filterCSWStore [''cswServiceId''] [JStr ''srv1''] \<rparr>,
       \<lparr> title = ''Error retrieving title'', xtype = ''cswrecordpagingpanel'', layout = ''fit'',
         store = filterCSWStore [''cswServiceId''] [JStr ''srv2''] \<rparr>] \<rparr>)"
    by (simp add: csw_eval js_form_def boxes_of_def submission_def)
  from handler_refines_buildTasks [OF names, of ?R "[]"] names run show ?thesis
    by simp
qed

text \<open>
  C15.  Refinement of the denormaliser.  For form values given as the specification
  gives them, the panel of a service queries with exactly the parameter list
  \<open>denormalize\<close> prescribes: the names, and the values passed through unconverted (a
  sequence stays one value).
\<close>

theorem getTabPanels_refines_denormalize:
  assumes "distinct (map fst m)" and "cm ''registryTabCheckboxGroup'' = Some boxes"
  shows "\<exists>p. getTabPanels cm (Some (js_form m)) (JStr ident) = Inr p
           \<and> panel_keys p = pl_names (denormalize m ident)
           \<and> panel_values p = map js_of (pl_values (denormalize m ident))"
proof -
  let ?kept = "filter (\<lambda>(k, v). k \<noteq> cswServiceId \<and> nonempty v) m"
  from assms(1) have wf: "wf_obj (js_form m)"
    by simp
  have "filter (\<lambda>k. kvp_keep (k, obj_get (js_form m) k)) (own_keys (js_form m)) = map fst ?kept"
    using kept_fields_keys [OF wf] by (simp add: kept_fields_js_form)
  moreover have "map (obj_get (js_form m))
      (filter (\<lambda>k. kvp_keep (k, obj_get (js_form m) k)) (own_keys (js_form m)))
      = map (js_of \<circ> snd) ?kept"
    using kept_fields_values [OF wf] by (simp add: kept_fields_js_form)
  ultimately show ?thesis
    using assms(2)
    by (simp add: getTabPanels_keys [where cm = cm] denormalize_def Let_def filterCSWStore_def)
qed

theorem getTabPanels_refines_denormalize_witness:
  "distinct (map fst [(''bbox'', Sequence [''1'', ''2'', ''3'', ''4'']), (''cswServiceId'', Scalar ''srv1'')])
   \<and> (\<exists>p. getTabPanels [''registryTabCheckboxGroup'' \<mapsto> []]
          (Some (js_form [(''bbox'', Sequence [''1'', ''2'', ''3'', ''4'']),
                          (''cswServiceId'', Scalar ''srv1'')])) (JStr ''srv1'') = Inr p
        \<and> panel_keys p = [''bbox'', ''cswServiceId'']
        \<and> panel_values p = [JArr [JStr ''1'', JStr ''2'', JStr ''3'', JStr ''4''], JStr ''srv1''])"
proof -
  let ?m = "[(''bbox'', Sequence [''1'', ''2'', ''3'', ''4'']), (''cswServiceId'', Scalar ''srv1'')]"
  let ?cm = "[''registryTabCheckboxGroup'' \<mapsto> ([] :: checkbox list)]"
  have names: "distinct (map fst ?m)" and group: "?cm ''registryTabCheckboxGroup'' = Some []"
    by simp_all
  have run: "getTabPanels ?cm (Some (js_form ?m)) (JStr ''srv1'')
      = Inr \<lparr> title = ''Error retrieving title'', xtype = ''cswrecordpagingpanel'', layout = ''fit'',
              store = filterCSWStore [''bbox'', ''cswServiceId'']
                [JArr [JStr ''1'', JStr ''2'', JStr ''3'', JStr ''4''], JStr ''srv1''] \<rparr>"
    by (simp add: csw_eval js_form_def)
  from getTabPanels_refines_denormalize [where cm = ?cm, OF names group, of "''srv1''"] names run
  show ?thesis
    by (simp add: filterCSWStore_def)
qed

text \<open>
  C5.  The window implements the dialog of the specification.  Started in the state
  that stands for a dialog, the window run on the actions that stand for a sequence
  of dialog actions (forms with no name twice) ends in the state that stands for the
  dialog after that sequence, and refuses the sequence exactly when the dialog does:
  every submission on a valid form emits the tasks of \<open>buildTasks\<close> for the form and
  the registry as they are at that moment, and ends both.
\<close>

theorem window_refines_dialog:
  assumes "distinct (map fst (d_form d))" and "list_all wf_dialog_action acts"
  shows "run (constructor (Some cfg)) (map action_of acts) (ui_of d)
       = map_option ui_of (dialog_run acts d)"
  using assms
proof (induction acts arbitrary: d)
  case Nil
  show ?case by simp
next
  case (Cons a acts)
  then have step: "exec (constructor (Some cfg)) (action_of a) (ui_of d)
      = map_option ui_of (dialog_step a d)"
    by (simp add: exec_action_of)
  show ?case
  proof (cases "dialog_step a d")
    case None
    with step show ?thesis by simp
  next
    case (Some d')
    with Cons.prems have "distinct (map fst (d_form d'))"
      by (auto intro: dialog_step_distinct)
    with Cons.IH [of d'] Cons.prems(2) step Some show ?thesis
      by simp
  qed
qed

theorem window_refines_dialog_witness:
  "distinct (map fst ([] :: form_fields))
   \<and> list_all wf_dialog_action
        [Submit, Check [(''srv1'', ''Registry One'')],
         Fill [(''keyword'', Scalar ''ice''), (''cswServiceId'', Scalar ''srv1'')] True, Submit]
   \<and> run (constructor (Some []))
        [Press 0, SetComponent ''registryTabCheckboxGroup''
            (Some [\<lparr>inputValue = ''srv1'', boxLabel = ''Registry One'', checked = True\<rparr>]),
         Edit [(''keyword'', JStr ''ice''), (''cswServiceId'', JStr ''srv1'')] True, Press 0]
        \<lparr> components = [''registryTabCheckboxGroup'' \<mapsto> []], form_valid = False,
          form_values = [], is_open = True, effects = [] \<rparr>
     = Some \<lparr> components = [''registryTabCheckboxGroup'' \<mapsto>
            [\<lparr>inputValue = ''srv1'', boxLabel = ''Registry One'', checked = True\<rparr>]],
          form_valid = True,
          form_values = [(''keyword'', JStr ''ice''), (''cswServiceId'', JStr ''srv1'')],
          is_open = False,
          effects = submission
            [\<lparr> title = ''Registry One'', xtype = ''cswrecordpagingpanel'', layout = ''fit'',
               store = filterCSWStore [''keyword'', ''cswServiceId''] [JStr ''ice'', JStr ''srv1''] \<rparr>] \<rparr>"
proof -
  let ?d = "\<lparr> d_form = [], d_valid = False, d_registry = [], d_tasks = None \<rparr>"
  let ?acts = "[Submit, Check [(''srv1'', ''Registry One'')],
       Fill [(''keyword'', Scalar ''ice''), (''cswServiceId'', Scalar ''srv1'')] True, Submit]"
  have form: "distinct (map fst (d_form ?d))" and acts: "list_all wf_dialog_action ?acts"
    by simp_all
  have run: "run (constructor (Some [])) (map action_of ?acts) (ui_of ?d)
      = Some \<lparr> components = [''registryTabCheckboxGroup'' \<mapsto>
            [\<lparr>inputValue = ''srv1'', boxLabel = ''Registry One'', checked = True\<rparr>]],
          form_valid = True,
          form_values = [(''keyword'', JStr ''ice''), (''cswServiceId'', JStr ''srv1'')],
          is_open = False,
          effects = submission
            [\<lparr> title = ''Registry One'', xtype = ''cswrecordpagingpanel'', layout = ''fit'',
               store = filterCSWStore [''keyword'', ''cswServiceId''] [JStr ''ice'', JStr ''srv1''] \<rparr>] \<rparr>"
    by (simp add: csw_eval csw_spec)
  from window_refines_dialog [OF form acts, of "[]"] acts run show ?thesis
    by (simp add: csw_spec)
qed

section \<open>The scenarios of the specification, run\<close>

text \<open>
  The three scenarios of the specification as runs of the handler, with the field name
  of the code.  A: \<open>{keyword: "ice", cswServiceId: "srv1"}\<close> gives one panel titled
  \<open>Registry One\<close> with the names \<open>keyword, cswServiceId\<close> and the values \<open>ice, srv1\<close>.
  B: \<open>{keyword: "", cswServiceId: ["srv1", "srv2"]}\<close> gives two panels, the empty keyword
  dropped, the second with the fallback title.  C: \<open>{bbox: ["1", "2", "3", "4"],
  cswServiceId: "srv1"}\<close> gives one panel whose value for \<open>bbox\<close> is the array of four,
  not flattened.  They are tests of the model against the specification; the general
  statements are the refinement theorems above.
\<close>

lemma scenarios_run:
  "handler (shown_valid [(''keyword'', JStr ''ice''), (''cswServiceId'', JStr ''srv1'')])
     = Inr ((shown_valid [(''keyword'', JStr ''ice''), (''cswServiceId'', JStr ''srv1'')])
         \<lparr> is_open := False, effects :=
            [FireEvent ''filterselectcomplete''
               [paging_panel ''Registry One'' [''keyword'', ''cswServiceId''] [JStr ''ice'', JStr ''srv1'']],
             ShowWindow \<lparr> sw_title = ''CSW Record Selection'', resultpanels =
               [paging_panel ''Registry One'' [''keyword'', ''cswServiceId''] [JStr ''ice'', JStr ''srv1'']] \<rparr>,
             CloseWindow] \<rparr>)
   \<and> handler (shown_valid [(''keyword'', JStr []), (''cswServiceId'', JArr [JStr ''srv1'', JStr ''srv2''])])
     = Inr ((shown_valid [(''keyword'', JStr []), (''cswServiceId'', JArr [JStr ''srv1'', JStr ''srv2''])])
         \<lparr> is_open := False, effects := submission
            [paging_panel ''Registry One'' [''cswServiceId''] [JStr ''srv1''],
             paging_panel ''Error retrieving title'' [''cswServiceId''] [JStr ''srv2'']] \<rparr>)
   \<and> handler (shown_valid [(''bbox'', JArr [JStr ''1'', JStr ''2'', JStr ''3'', JStr ''4'']),
                            (''cswServiceId'', JStr ''srv1'')])
     = Inr ((shown_valid [(''bbox'', JArr [JStr ''1'', JStr ''2'', JStr ''3'', JStr ''4'']),
                          (''cswServiceId'', JStr ''srv1'')])
         \<lparr> is_open := False, effects := submission
            [paging_panel ''Registry One'' [''bbox'', ''cswServiceId'']
               [JArr [JStr ''1'', JStr ''2'', JStr ''3'', JStr ''4''], JStr ''srv1'']] \<rparr>)"
  by (intro conjI) (simp_all add: csw_eval submission_def)

end
